theory Spec2Isabelle
  imports Main "HOL-Library.Word"
begin

unbundle bit_operations_syntax

section \<open>Configuration, output lines and the generator state\<close>

text \<open>
  The generator keeps its configuration in file-level variables that only \<open>main\<close>
  writes. They are gathered in one record that every emitting function receives.
\<close>

record config =
  config_attack :: string
  config_nr_rounds :: nat
  config_nr_message_bits :: nat
  config_nr_hash_bits :: nat
  config_cnf :: bool
  config_opb :: bool
  config_use_xor_clauses :: bool
  config_use_halfadder_clauses :: bool
  config_use_tseitin_adders :: bool
  config_restrict_branching :: bool
  config_use_compact_adders :: bool

text \<open>
  The two string streams \<open>cnf\<close> and \<open>opb\<close> are kept as lists of lines. A line
  carries exactly the data the source prints on it: a literal is the signed integer the
  source prints (\<open>-\<close> or \<open>~\<close> in front of the absolute value), a term of a
  pseudo-boolean constraint is a coefficient with a literal.
\<close>

datatype cnf_line =
    CnfComment string
  | Decision int
  | Clause "int list"
  | XorClause "int list"
  | HalfAdder "int list" "int list"

datatype comparison = Geq | Equal

datatype opb_line =
    OpbComment string
  | Constraint "(int \<times> int) list" comparison int

text \<open>
  The counters and buffers of the source, and the static \<open>cache\<close> of \<open>halfadder\<close>
  (a \<open>std::map\<close> keyed by the two arities, here an association list).
\<close>

record state =
  cnf :: "cnf_line list"
  opb :: "opb_line list"
  nr_variables :: int
  nr_clauses :: nat
  nr_xor_clauses :: nat
  nr_constraints :: nat
  cache :: "((nat \<times> nat) \<times> int list list) list"

definition initial_state :: state where
  "initial_state =
     \<lparr>cnf = [], opb = [], nr_variables = 0, nr_clauses = 0, nr_xor_clauses = 0,
      nr_constraints = 0, cache = []\<rparr>"

subsection \<open>Decimal printing, as \<open>format\<close> does for numbers\<close>

fun show_nat :: "nat \<Rightarrow> string" where
  "show_nat n =
     (if n < 10 then [char_of (48 + n)]
      else show_nat (n div 10) @ [char_of (48 + n mod 10)])"

declare show_nat.simps [simp del]

definition show_int :: "int \<Rightarrow> string" where
  "show_int i = (if i < 0 then CHR ''-'' # show_nat (nat (- i)) else show_nat (nat i))"

section \<open>The variable registry and the constraint sinks\<close>

definition comment :: "string \<Rightarrow> state \<Rightarrow> state" where
  "comment str s = s\<lparr>cnf := cnf s @ [CnfComment str], opb := opb s @ [OpbComment str]\<rparr>"

text \<open>
  \<open>new_vars\<close> numbers \<open>n\<close> fresh variables \<open>nr_variables + 1, ...\<close>, writes the
  comment and, under \<open>config_restrict_branching\<close>, one hint line per variable. The
  source prints \<open>x[0]\<close> in the comment; every call of the program has \<open>n > 0\<close>, where
  it is the first fresh identifier.
\<close>

definition fresh_ids :: "state \<Rightarrow> nat \<Rightarrow> int list" where
  "fresh_ids s n = map (\<lambda>i. nr_variables s + 1 + int i) [0..<n]"

definition new_vars :: "config \<Rightarrow> string \<Rightarrow> nat \<Rightarrow> bool \<Rightarrow> state \<Rightarrow> int list \<times> state" where
  "new_vars cfg label n decision_var s =
     (let x = fresh_ids s n;
          s1 = s\<lparr>nr_variables := nr_variables s + int n\<rparr>;
          s2 = comment (''var '' @ show_int (nr_variables s + 1) @ ''/'' @ show_nat n @ '' '' @ label) s1;
          s3 = (if config_restrict_branching cfg then
                  (if decision_var then s2\<lparr>cnf := cnf s2 @ map Decision x\<rparr>
                   else s2\<lparr>cnf := cnf s2 @ map (\<lambda>v. Decision (- v)) x\<rparr>)
                else s2)
      in (x, s3))"

definition constant_bit :: "int \<Rightarrow> bool \<Rightarrow> state \<Rightarrow> state" where
  "constant_bit r v s =
     s\<lparr>cnf := cnf s @ [Clause [if v then r else - r]],
       opb := opb s @ [Constraint [(1, r)] Equal (if v then 1 else 0)],
       nr_clauses := nr_clauses s + 1,
       nr_constraints := nr_constraints s + 1\<rparr>"

definition constant32 :: "int list \<Rightarrow> 32 word \<Rightarrow> state \<Rightarrow> state" where
  "constant32 r v s =
     fold (\<lambda>i. constant_bit (r ! i) (bit v i)) [0..<32]
       (comment (''constant32 ('' @ show_nat (unat v) @ '')'') s)"

definition new_constant :: "config \<Rightarrow> string \<Rightarrow> 32 word \<Rightarrow> state \<Rightarrow> int list \<times> state" where
  "new_constant cfg label v s =
     (let (r, s1) = new_vars cfg label 32 True s in (r, constant32 r v s1))"

definition clause :: "int list \<Rightarrow> state \<Rightarrow> state" where
  "clause v s =
     s\<lparr>cnf := cnf s @ [Clause v],
       opb := opb s @ [Constraint (map (\<lambda>x. (1, x)) v) Geq 1],
       nr_clauses := nr_clauses s + 1,
       nr_constraints := nr_constraints s + 1\<rparr>"

definition xor_clause :: "int list \<Rightarrow> state \<Rightarrow> state" where
  "xor_clause v s =
     s\<lparr>cnf := cnf s @ [XorClause v], nr_xor_clauses := nr_xor_clauses s + 1\<rparr>"


section \<open>The half-adder constraint and the external minimiser\<close>

text \<open>
  When native half-adder lines are off, \<open>halfadder\<close> writes a truth table to the
  \<open>espresso\<close> process and reads the cubes of its answer. The process is not part of
  the program: it is the parameter \<open>M\<close>, a function from the table (one row per line,
  the printed input bits and the output bit) to the lines it prints. The model covers
  the runs in which the pipe works; when a system call fails the program throws before
  anything is flushed to standard output.
\<close>

type_synonym minimizer = "(bool list \<times> bool) list \<Rightarrow> string list"

definition popcount :: "nat \<Rightarrow> nat" where
  "popcount x = length (filter (bit x) [0..<32])"

definition truth_table :: "nat \<Rightarrow> nat \<Rightarrow> (bool list \<times> bool) list" where
  "truth_table n m =
     concat (map (\<lambda>i. map (\<lambda>j.
         (map (\<lambda>k. \<not> bit i k) (rev [0..<n]) @ map (\<lambda>k. \<not> bit j k) (rev [0..<m]),
          popcount i \<noteq> j)) [0..<2 ^ m]) [0..<2 ^ n])"

text \<open>
  One line of the answer becomes one clause over the positions \<open>1 .. n + m\<close>. The
  source indexes its 512-byte buffer up to \<open>n + m\<close> whatever the length of the line;
  here a position past the end of the line gives no literal.
\<close>

definition parse_cube :: "nat \<Rightarrow> string \<Rightarrow> int list" where
  "parse_cube k buf =
     concat (map (\<lambda>i.
         if i < length buf \<and> buf ! i = CHR ''0'' then [- (int i + 1)]
         else if i < length buf \<and> buf ! i = CHR ''1'' then [int i + 1]
         else []) [0..<k])"

fun read_cubes :: "nat \<Rightarrow> string list \<Rightarrow> int list list" where
  "read_cubes k [] = []"
| "read_cubes k (buf # rest) =
     (if take 2 buf = ''.i'' then read_cubes k rest
      else if take 2 buf = ''.o'' then read_cubes k rest
      else if take 2 buf = ''.p'' then read_cubes k rest
      else if take 2 buf = ''.e'' then []
      else parse_cube k buf # read_cubes k rest)"

definition cube_literal :: "int list \<Rightarrow> int list \<Rightarrow> int \<Rightarrow> int" where
  "cube_literal lhs rhs i =
     (let n = length lhs; m = length rhs; j = nat (\<bar>i\<bar> - 1);
          var = (if j < n then lhs ! j else rhs ! (m - 1 - (j - n)))
      in if i < 0 then - var else var)"

definition cube_clause :: "int list \<Rightarrow> int list \<Rightarrow> int list \<Rightarrow> state \<Rightarrow> state" where
  "cube_clause lhs rhs c t =
     t\<lparr>cnf := cnf t @ [Clause (map (cube_literal lhs rhs) c)], nr_clauses := nr_clauses t + 1\<rparr>"

definition halfadder :: "config \<Rightarrow> minimizer \<Rightarrow> int list \<Rightarrow> int list \<Rightarrow> state \<Rightarrow> state" where
  "halfadder cfg M lhs rhs s =
     (let s1 =
        (if config_use_halfadder_clauses cfg then s\<lparr>cnf := cnf s @ [HalfAdder lhs rhs]\<rparr>
         else
           let n = length lhs; m = length rhs;
               (clauses, s') =
                 (case map_of (cache s) (n, m) of
                    Some cs \<Rightarrow> (cs, s)
                  | None \<Rightarrow>
                      (let cs = read_cubes (n + m) (M (truth_table n m))
                       in (cs, s\<lparr>cache := cache s @ [((n, m), cs)]\<rparr>)))
           in fold (cube_clause lhs rhs) clauses s')
      in s1\<lparr>opb := opb s1 @
               [Constraint (map (\<lambda>x. (1, x)) lhs @
                            map (\<lambda>i. (- (2 ^ i), rhs ! i)) [0..<length rhs]) Equal 0],
            nr_constraints := nr_constraints s1 + 1\<rparr>)"

section \<open>The gate library\<close>

definition xor2 :: "config \<Rightarrow> int list \<Rightarrow> int list \<Rightarrow> int list \<Rightarrow> nat \<Rightarrow> state \<Rightarrow> state" where
  "xor2 cfg r a b n s =
     (let s1 = comment ''xor2'' s in
      if config_use_xor_clauses cfg then
        fold (\<lambda>i. xor_clause [- (r ! i), a ! i, b ! i]) [0..<n] s1
      else
        fold (\<lambda>i. fold (\<lambda>j t.
            if popcount (j XOR 1) mod 2 = 1 then t
            else clause [if bit j 0 then - (r ! i) else r ! i,
                         if bit j 1 then a ! i else - (a ! i),
                         if bit j 2 then b ! i else - (b ! i)] t) [0..<8]) [0..<n] s1)"

definition xor3 :: "config \<Rightarrow> int list \<Rightarrow> int list \<Rightarrow> int list \<Rightarrow> int list \<Rightarrow> nat \<Rightarrow> state \<Rightarrow> state" where
  "xor3 cfg r a b c n s =
     (let s1 = comment ''xor3'' s in
      if config_use_xor_clauses cfg then
        fold (\<lambda>i. xor_clause [- (r ! i), a ! i, b ! i, c ! i]) [0..<n] s1
      else
        fold (\<lambda>i. fold (\<lambda>j t.
            if popcount (j XOR 1) mod 2 = 0 then t
            else clause [if bit j 0 then - (r ! i) else r ! i,
                         if bit j 1 then a ! i else - (a ! i),
                         if bit j 2 then b ! i else - (b ! i),
                         if bit j 3 then c ! i else - (c ! i)] t) [0..<16]) [0..<n] s1)"

definition xor4 :: "config \<Rightarrow> int list \<Rightarrow> int list \<Rightarrow> int list \<Rightarrow> int list \<Rightarrow> int list \<Rightarrow> state \<Rightarrow> state" where
  "xor4 cfg r a b c d s =
     (let s1 = comment ''xor4'' s in
      if config_use_xor_clauses cfg then
        fold (\<lambda>i. xor_clause [- (r ! i), a ! i, b ! i, c ! i, d ! i]) [0..<32] s1
      else
        fold (\<lambda>i. fold (\<lambda>j t.
            if popcount (j XOR 1) mod 2 = 1 then t
            else clause [if bit j 0 then - (r ! i) else r ! i,
                         if bit j 1 then a ! i else - (a ! i),
                         if bit j 2 then b ! i else - (b ! i),
                         if bit j 3 then c ! i else - (c ! i),
                         if bit j 4 then d ! i else - (d ! i)] t) [0..<32]) [0..<32] s1)"

definition eq :: "config \<Rightarrow> int list \<Rightarrow> int list \<Rightarrow> nat \<Rightarrow> state \<Rightarrow> state" where
  "eq cfg a b n s =
     (if config_use_xor_clauses cfg then
        fold (\<lambda>i. xor_clause [- (a ! i), b ! i]) [0..<n] s
      else
        fold (\<lambda>i t. clause [a ! i, - (b ! i)] (clause [- (a ! i), b ! i] t)) [0..<n] s)"

definition neq :: "config \<Rightarrow> int list \<Rightarrow> int list \<Rightarrow> nat \<Rightarrow> state \<Rightarrow> state" where
  "neq cfg a b n s =
     (if config_use_xor_clauses cfg then
        fold (\<lambda>i. xor_clause [a ! i, b ! i]) [0..<n] s
      else
        fold (\<lambda>i t. clause [- (a ! i), - (b ! i)] (clause [a ! i, b ! i] t)) [0..<n] s)"

definition and2 :: "int list \<Rightarrow> int list \<Rightarrow> int list \<Rightarrow> nat \<Rightarrow> state \<Rightarrow> state" where
  "and2 r a b n s =
     fold (\<lambda>i t. clause [- (r ! i), b ! i]
                   (clause [- (r ! i), a ! i]
                     (clause [r ! i, - (a ! i), - (b ! i)] t))) [0..<n] s"

definition or2 :: "int list \<Rightarrow> int list \<Rightarrow> int list \<Rightarrow> nat \<Rightarrow> state \<Rightarrow> state" where
  "or2 r a b n s =
     fold (\<lambda>i t. clause [r ! i, - (b ! i)]
                   (clause [r ! i, - (a ! i)]
                     (clause [- (r ! i), a ! i, b ! i] t))) [0..<n] s"

text \<open>Rotation is a rewiring of identifiers: \<open>r[i] = x[(i + 32 - n) % 32]\<close>.\<close>

definition rotl :: "int list \<Rightarrow> nat \<Rightarrow> int list" where
  "rotl x n = map (\<lambda>i. x ! ((i + 32 - n) mod 32)) [0..<32]"


section \<open>The adder library\<close>

text \<open>
  \<open>floor(log2(n))\<close> of the source, on the sizes \<open>2 .. 7\<close> that occur (the floating
  point result is exact there).
\<close>

fun floor_log2 :: "nat \<Rightarrow> nat" where
  "floor_log2 n = (if n < 2 then 0 else Suc (floor_log2 (n div 2)))"

declare floor_log2.simps [simp del]

text \<open>
  The compact branch of \<open>add2\<close> and \<open>add5\<close>: one equation with the coefficients
  \<open>1L << i\<close> on every operand and \<open>-(1UL << i)\<close> on the result, written to the
  pseudo-boolean buffer only. The two functions differ in the operands alone, so the
  branch takes the list of operands.
\<close>

definition compact_adder :: "int list \<Rightarrow> int list list \<Rightarrow> state \<Rightarrow> state" where
  "compact_adder r xs s =
     s\<lparr>opb := opb s @
           [Constraint (concat (map (\<lambda>x. map (\<lambda>i. (2 ^ i, x ! i)) [0..<32]) xs) @
                        map (\<lambda>i. (- (2 ^ i), r ! i)) [0..<32]) Equal 0],
       nr_constraints := nr_constraints s + 1\<rparr>"

text \<open>
  The half-adder branch: one step of the loop over the bit columns. \<open>addends\<close> is the
  array of 37 vectors; the step pushes the operands' bits of column \<open>i\<close>, allocates
  the \<open>m\<close> carries, routes carry \<open>j\<close> to column \<open>i + j\<close> and emits the constraint.
\<close>

definition add_column ::
  "config \<Rightarrow> minimizer \<Rightarrow> string \<Rightarrow> int list \<Rightarrow> int list list \<Rightarrow> nat \<Rightarrow>
   int list list \<times> state \<Rightarrow> int list list \<times> state" where
  "add_column cfg M label r xs i = (\<lambda>(addends, s).
     let addends1 = addends[i := addends ! i @ map (\<lambda>x. x ! i) xs];
         m = floor_log2 (length (addends1 ! i));
         (cs, s1) = new_vars cfg (label @ ''_rhs['' @ show_nat i @ '']'') m True s;
         rhs = r ! i # cs;
         addends2 = fold (\<lambda>j ad. ad[i + j := ad ! (i + j) @ [rhs ! j]]) [1..<1 + m] addends1
     in (addends2, halfadder cfg M (addends2 ! i) rhs s1))"

definition halfadder_adder ::
  "config \<Rightarrow> minimizer \<Rightarrow> string \<Rightarrow> int list \<Rightarrow> int list list \<Rightarrow> state \<Rightarrow> state" where
  "halfadder_adder cfg M label r xs s =
     snd (fold (add_column cfg M label r xs) [0..<32] (replicate 37 [], s))"

definition add2 ::
  "config \<Rightarrow> minimizer \<Rightarrow> string \<Rightarrow> int list \<Rightarrow> int list \<Rightarrow> int list \<Rightarrow> state \<Rightarrow> state" where
  "add2 cfg M label r a b s =
     (let s0 = comment ''add2'' s in
      if config_use_tseitin_adders cfg then
        (let (c, s1) = new_vars cfg ''carry'' 31 True s0;
             (t0, s2) = new_vars cfg ''t0'' 31 True s1;
             (t1, s3) = new_vars cfg ''t1'' 31 True s2;
             (t2, s4) = new_vars cfg ''t2'' 31 True s3;
             s5 = and2 c a b 1 s4;
             s6 = xor2 cfg r a b 1 s5;
             s7 = xor2 cfg t0 (drop 1 a) (drop 1 b) 31 s6;
             s8 = and2 t1 (drop 1 a) (drop 1 b) 31 s7;
             s9 = and2 t2 t0 c 31 s8;
             s10 = or2 (drop 1 c) t1 t2 30 s9
         in xor2 cfg (drop 1 r) t0 c 31 s10)
      else if config_use_compact_adders cfg then compact_adder r [a, b] s0
      else halfadder_adder cfg M label r [a, b] s0)"

definition add5 ::
  "config \<Rightarrow> minimizer \<Rightarrow> string \<Rightarrow> int list \<Rightarrow> int list \<Rightarrow> int list \<Rightarrow> int list \<Rightarrow>
   int list \<Rightarrow> int list \<Rightarrow> state \<Rightarrow> state" where
  "add5 cfg M label r a b c d e s =
     (let s0 = comment ''add5'' s in
      if config_use_tseitin_adders cfg then
        (let (t0, s1) = new_vars cfg ''t0'' 32 True s0;
             (t1, s2) = new_vars cfg ''t1'' 32 True s1;
             (t2, s3) = new_vars cfg ''t2'' 32 True s2;
             s4 = add2 cfg M label t0 a b s3;
             s5 = add2 cfg M label t1 c d s4;
             s6 = add2 cfg M label t2 t0 t1 s5
         in add2 cfg M label r t2 e s6)
      else if config_use_compact_adders cfg then compact_adder r [a, b, c, d, e] s0
      else halfadder_adder cfg M label r [a, b, c, d, e] s0)"

section \<open>The SHA-1 circuit builder\<close>

text \<open>
  The class \<open>sha1\<close> holds the identifiers of the message schedule, of the chaining
  words and of the working words. An entry the constructor has not written yet is
  uninitialised memory in the source and a word of zeros here; no entry is read before
  it is written when the round count is at most 80.
\<close>

record sha1 =
  w_vars :: "int list list"
  h_in_vars :: "int list list"
  h_out_vars :: "int list list"
  a_vars :: "int list list"

definition blank :: "nat \<Rightarrow> int list list" where
  "blank n = replicate n (replicate 32 0)"

definition alloc_words ::
  "config \<Rightarrow> (nat \<Rightarrow> string) \<Rightarrow> bool \<Rightarrow> nat list \<Rightarrow> int list list \<times> state \<Rightarrow> int list list \<times> state" where
  "alloc_words cfg label decision_var =
     fold (\<lambda>i (arr, s). let (x, s1) = new_vars cfg (label i) 32 decision_var s
                          in (arr[i := x], s1))"

definition schedule ::
  "config \<Rightarrow> int list list \<Rightarrow> nat \<Rightarrow> int list list \<times> state \<Rightarrow> int list list \<times> state" where
  "schedule cfg wt nr_rounds =
     fold (\<lambda>i (w, s).
        (w[i := rotl (wt ! i) 1],
         xor4 cfg (wt ! i) (w ! (i - 3)) (w ! (i - 8)) (w ! (i - 14)) (w ! (i - 16)) s))
       [16..<nr_rounds]"

text \<open>
  The mixing function of round \<open>i\<close>. The bodies of the two loops that write clauses
  directly (rounds 0-19 and rounds 40-59) are \<open>choice_bit\<close> and \<open>majority_bit\<close>.
\<close>

definition choice_bit ::
  "int list \<Rightarrow> int list \<Rightarrow> int list \<Rightarrow> int list \<Rightarrow> nat \<Rightarrow> state \<Rightarrow> state" where
  "choice_bit f b c d j t =
     clause [f ! j, - (c ! j), - (d ! j)]
      (clause [f ! j, b ! j, - (d ! j)]
       (clause [f ! j, - (b ! j), - (c ! j)]
        (clause [- (f ! j), c ! j, d ! j]
         (clause [- (f ! j), b ! j, d ! j]
          (clause [- (f ! j), - (b ! j), c ! j] t)))))"

definition majority_bit ::
  "int list \<Rightarrow> int list \<Rightarrow> int list \<Rightarrow> int list \<Rightarrow> nat \<Rightarrow> state \<Rightarrow> state" where
  "majority_bit f b c d j t =
     clause [f ! j, - (c ! j), - (d ! j)]
      (clause [f ! j, - (b ! j), - (d ! j)]
       (clause [f ! j, - (b ! j), - (c ! j)]
        (clause [- (f ! j), c ! j, d ! j]
         (clause [- (f ! j), b ! j, d ! j]
          (clause [- (f ! j), b ! j, c ! j] t)))))"

definition mixing ::
  "config \<Rightarrow> nat \<Rightarrow> int list \<Rightarrow> int list \<Rightarrow> int list \<Rightarrow> int list \<Rightarrow> state \<Rightarrow> state" where
  "mixing cfg i f b c d s =
     (if i < 20 then fold (choice_bit f b c d) [0..<32] s
      else if i < 40 then xor3 cfg f b c d 32 s
      else if i < 60 then fold (majority_bit f b c d) [0..<32] s
      else if i < 80 then xor3 cfg f b c d 32 s
      else s)"

definition sha1_round ::
  "config \<Rightarrow> minimizer \<Rightarrow> int list list \<Rightarrow> int list list \<Rightarrow> int list list \<Rightarrow> nat \<Rightarrow>
   state \<Rightarrow> state" where
  "sha1_round cfg M av wv kv i s =
     (let prev_a = rotl (av ! (i + 4)) 5;
          b = rotl (av ! (i + 3)) 0;
          c = rotl (av ! (i + 2)) 30;
          d = rotl (av ! (i + 1)) 30;
          e = rotl (av ! (i + 0)) 30;
          (f, s1) = new_vars cfg (''f['' @ show_nat i @ '']'') 32 True s;
          s2 = mixing cfg i f b c d s1
      in add5 cfg M (''a['' @ show_nat (i + 5) @ '']'') (av ! (i + 5)) prev_a f e
           (kv ! (i div 20)) (wv ! i) s2)"


text \<open>The constructor \<open>sha1::sha1(nr_rounds, name)\<close>.\<close>

definition sha1 :: "config \<Rightarrow> minimizer \<Rightarrow> nat \<Rightarrow> string \<Rightarrow> state \<Rightarrow> sha1 \<times> state" where
  "sha1 cfg M nr_rounds name s =
     (let s1 = comment (''parameter nr_rounds = '' @ show_nat nr_rounds) (comment ''sha1'' s);
          (w0, s2) = alloc_words cfg (\<lambda>i. ''w'' @ name @ ''['' @ show_nat i @ '']'')
                       (\<not> config_restrict_branching cfg) [0..<16] (blank 80, s1);
          (wt, s3) = alloc_words cfg (\<lambda>i. ''w'' @ name @ ''['' @ show_nat i @ '']'')
                       True [16..<nr_rounds] (blank 80, s2);
          (h_in, s4) = alloc_words cfg (\<lambda>i. ''h'' @ name @ ''_in'' @ show_nat i)
                       True [0..<5] (blank 5, s3);
          (h_out, s5) = alloc_words cfg (\<lambda>i. ''h'' @ name @ ''_out'' @ show_nat i)
                       True [0..<5] (blank 5, s4);
          (a0, s6) = alloc_words cfg (\<lambda>i. ''a['' @ show_nat i @ '']'')
                       True [5..<nr_rounds + 5] (blank 85, s5);
          (wv, s7) = schedule cfg wt nr_rounds (w0, s6);
          (k0, s8) = new_constant cfg ''k[0]'' 0x5a827999 s7;
          (k1, s9) = new_constant cfg ''k[1]'' 0x6ed9eba1 s8;
          (k2, s10) = new_constant cfg ''k[2]'' 0x8f1bbcdc s9;
          (k3, s11) = new_constant cfg ''k[3]'' 0xca62c1d6 s10;
          kv = [k0, k1, k2, k3];
          s12 = constant32 (h_in ! 0) 0x67452301 s11;
          s13 = constant32 (h_in ! 1) 0xefcdab89 s12;
          s14 = constant32 (h_in ! 2) 0x98badcfe s13;
          s15 = constant32 (h_in ! 3) 0x10325476 s14;
          s16 = constant32 (h_in ! 4) 0xc3d2e1f0 s15;
          av = a0[4 := rotl (h_in ! 0) (32 - 0),
                  3 := rotl (h_in ! 1) (32 - 0),
                  2 := rotl (h_in ! 2) (32 - 30),
                  1 := rotl (h_in ! 3) (32 - 30),
                  0 := rotl (h_in ! 4) (32 - 30)];
          s17 = fold (sha1_round cfg M av wv kv) [0..<nr_rounds] s16;
          c = rotl (av ! (nr_rounds + 2)) 30;
          d = rotl (av ! (nr_rounds + 1)) 30;
          e = rotl (av ! (nr_rounds + 0)) 30;
          s18 = add2 cfg M ''h_out'' (h_out ! 0) (h_in ! 0) (av ! (nr_rounds + 4)) s17;
          s19 = add2 cfg M ''h_out'' (h_out ! 1) (h_in ! 1) (av ! (nr_rounds + 3)) s18;
          s20 = add2 cfg M ''h_out'' (h_out ! 2) (h_in ! 2) c s19;
          s21 = add2 cfg M ''h_out'' (h_out ! 3) (h_in ! 3) d s20;
          s22 = add2 cfg M ''h_out'' (h_out ! 4) (h_in ! 4) e s21
      in (\<lparr>w_vars = wv, h_in_vars = h_in, h_out_vars = h_out, a_vars = av\<rparr>, s22))"

section \<open>The reference computation\<close>

definition rotl32 :: "32 word \<Rightarrow> nat \<Rightarrow> 32 word" where
  "rotl32 x n = push_bit n x OR drop_bit (32 - n) x"

text \<open>
  \<open>sha1_forward\<close> expands the 80-word array \<open>w\<close> in place and writes the five words
  of \<open>h_out\<close>, which are the result here. For \<open>i \<ge> 80\<close> the source reads \<open>f\<close> and
  \<open>k\<close> uninitialised; the model puts zero there.
\<close>

definition expand :: "nat \<Rightarrow> 32 word list \<Rightarrow> 32 word list" where
  "expand nr_rounds =
     fold (\<lambda>i w. w[i := rotl32 (w ! (i - 3) XOR w ! (i - 8) XOR w ! (i - 14) XOR w ! (i - 16)) 1])
       [16..<nr_rounds]"

definition forward_round ::
  "32 word list \<Rightarrow> nat \<Rightarrow> 32 word \<times> 32 word \<times> 32 word \<times> 32 word \<times> 32 word \<Rightarrow>
   32 word \<times> 32 word \<times> 32 word \<times> 32 word \<times> 32 word" where
  "forward_round w i = (\<lambda>(a, b, c, d, e).
     let (f, k) =
           (if i < 20 then ((b AND c) OR (NOT b AND d), 0x5A827999)
            else if i < 40 then (b XOR c XOR d, 0x6ED9EBA1)
            else if i < 60 then ((b AND c) OR (b AND d) OR (c AND d), 0x8F1BBCDC)
            else if i < 80 then (b XOR c XOR d, 0xCA62C1D6)
            else (0, 0));
         t = rotl32 a 5 + f + e + k + w ! i
     in (t, a, rotl32 b 30, c, d))"

definition sha1_forward :: "nat \<Rightarrow> 32 word list \<Rightarrow> 32 word list" where
  "sha1_forward nr_rounds w0 =
     (let h0 = 0x67452301; h1 = 0xEFCDAB89; h2 = 0x98BADCFE; h3 = 0x10325476; h4 = 0xC3D2E1F0;
          w = expand nr_rounds w0;
          (a, b, c, d, e) = fold (forward_round w) [0..<nr_rounds] (h0, h1, h2, h3, h4)
      in [h0 + a, h1 + b, h2 + c, h3 + d, h4 + e])"

section \<open>The attack layer\<close>

text \<open>
  The C library's generators are outside the program: \<open>srand\<close>, \<open>rand\<close> and
  \<open>std::random_shuffle\<close> work on one hidden state, \<open>srand48\<close> and \<open>lrand48\<close> on
  another. They are parameters, with the hidden states passed explicitly.
\<close>

record ('r, 'q) libc =
  libc_srand :: "nat \<Rightarrow> 'r"
  libc_rand :: "'r \<Rightarrow> nat \<times> 'r"
  libc_srand48 :: "nat \<Rightarrow> 'q"
  libc_lrand48 :: "'q \<Rightarrow> nat \<times> 'q"
  libc_random_shuffle :: "nat list \<Rightarrow> 'r \<Rightarrow> nat list \<times> 'r"

definition random_message :: "('r, 'q) libc \<Rightarrow> 'q \<Rightarrow> 32 word list" where
  "random_message L q =
     fst (fold (\<lambda>i (w, q1). let (x, q2) = libc_lrand48 L q1 in (w[i := word_of_nat x], q2))
            [0..<16] (replicate 80 0, q))"

definition fix_hash_bits ::
  "config \<Rightarrow> sha1 \<Rightarrow> 32 word list \<Rightarrow> nat list \<Rightarrow> state \<Rightarrow> state" where
  "fix_hash_bits cfg f h hash_bits =
     fold (\<lambda>i. let r = hash_bits ! i div 32; t = hash_bits ! i mod 32
                in constant_bit (h_out_vars f ! r ! t) (bit (h ! r) t))
       [0..<config_nr_hash_bits cfg]"

definition preimage :: "config \<Rightarrow> minimizer \<Rightarrow> ('r, 'q) libc \<Rightarrow> 'r \<times> 'q \<Rightarrow> state \<Rightarrow> state" where
  "preimage cfg M L rq s =
     (let (f, s1) = sha1 cfg M (config_nr_rounds cfg) [] s;
          w = random_message L (snd rq);
          h = sha1_forward (config_nr_rounds cfg) w;
          s2 = comment (''Fix '' @ show_nat (config_nr_message_bits cfg) @ '' message bits'') s1;
          (message_bits, r1) = libc_random_shuffle L [0..<512] (fst rq);
          s3 = fold (\<lambda>i. let r = message_bits ! i div 32; t = message_bits ! i mod 32
                          in constant_bit (w_vars f ! r ! t) (bit (w ! r) t))
                 [0..<config_nr_message_bits cfg] s2;
          s4 = comment (''Fix '' @ show_nat (config_nr_hash_bits cfg) @ '' hash bits'') s3;
          (hash_bits, r2) = libc_random_shuffle L [0..<160] r1
      in fix_hash_bits cfg f h hash_bits s4)"

definition second_preimage ::
  "config \<Rightarrow> minimizer \<Rightarrow> ('r, 'q) libc \<Rightarrow> 'r \<times> 'q \<Rightarrow> state \<Rightarrow> state" where
  "second_preimage cfg M L rq s =
     (let (f, s1) = sha1 cfg M (config_nr_rounds cfg) [] s;
          w = random_message L (snd rq);
          h = sha1_forward (config_nr_rounds cfg) w;
          s2 = comment (''Fix '' @ show_nat (config_nr_message_bits cfg) @ '' message bits'') s1;
          (message_bits, r1) = libc_random_shuffle L [0..<512] (fst rq);
          s3 = (if config_nr_message_bits cfg > 0 then
                  (let r = message_bits ! 0 div 32; t = message_bits ! 0 mod 32
                   in constant_bit (w_vars f ! r ! t) (\<not> bit (w ! r) t) s2)
                else s2);
          s4 = fold (\<lambda>i. let r = message_bits ! i div 32; t = message_bits ! i mod 32
                          in constant_bit (w_vars f ! r ! t) (bit (w ! r) t))
                 [1..<config_nr_message_bits cfg] s3;
          s5 = comment (''Fix '' @ show_nat (config_nr_hash_bits cfg) @ '' hash bits'') s4;
          (hash_bits, r2) = libc_random_shuffle L [0..<160] r1
      in fix_hash_bits cfg f h hash_bits s5)"

text \<open>
  \<open>collision\<close> is the only attack that writes to standard error; it returns the
  lines it wrote there with the state.
\<close>

definition collision ::
  "config \<Rightarrow> minimizer \<Rightarrow> ('r, 'q) libc \<Rightarrow> 'r \<times> 'q \<Rightarrow> state \<Rightarrow> string list \<times> state" where
  "collision cfg M L rq s =
     (let (f, s1) = sha1 cfg M (config_nr_rounds cfg) ''0'' s;
          (g, s2) = sha1 cfg M (config_nr_rounds cfg) ''1'' s1;
          err = (if config_nr_message_bits cfg > 0
                 then [''warning: collision attacks do not use fixed message bits'']
                 else []);
          s3 = comment (''Fix '' @ show_nat (config_nr_message_bits cfg) @ '' message bits'') s2;
          (message_bits, r1) = libc_random_shuffle L [0..<512] (fst rq);
          r = message_bits ! 0 div 32; t = message_bits ! 0 mod 32;
          s4 = neq cfg (drop t (w_vars f ! r)) (drop t (w_vars g ! r)) 1 s3;
          s5 = comment (''Fix '' @ show_nat (config_nr_hash_bits cfg) @ '' hash bits'') s4;
          (hash_bits, r2) = libc_random_shuffle L [0..<160] r1
      in (err,
          fold (\<lambda>i. let r = hash_bits ! i div 32; t = hash_bits ! i mod 32
                     in eq cfg (drop t (h_out_vars f ! r)) (drop t (h_out_vars g ! r)) 1)
            [0..<config_nr_hash_bits cfg] s5))"

section \<open>The driver\<close>

text \<open>
  \<open>main\<close> starts from the options as the option parser stored them: which flags are
  present, the values given, and every occurrence of \<open>--attack\<close>. \<open>clock\<close> is the
  value of \<open>time(0)\<close>. The result is the exit code, the lines written to standard
  error and the lines written to standard output.
\<close>

record options =
  opt_help :: bool
  opt_seed :: "nat option"
  opt_attack :: "string list"
  opt_rounds :: "nat option"
  opt_message_bits :: "nat option"
  opt_hash_bits :: "nat option"
  opt_cnf :: bool
  opt_opb :: bool
  opt_tseitin_adders :: bool
  opt_xor :: bool
  opt_halfadder :: bool
  opt_restrict_branching :: bool
  opt_compact_adders :: bool

datatype out_line =
    HelpText
  | CnfHeader int nat
  | CnfLine cnf_line
  | OpbHeader int nat
  | OpbLine opb_line

record result =
  exit_code :: int
  stderr :: "string list"
  stdout :: "out_line list"

definition failure :: "string \<Rightarrow> result" where
  "failure msg = \<lparr>exit_code = 1, stderr = [msg], stdout = []\<rparr>"

definition configure :: "options \<Rightarrow> string \<Rightarrow> config" where
  "configure opts attack =
     \<lparr>config_attack = attack,
      config_nr_rounds = (case opt_rounds opts of Some v \<Rightarrow> v | None \<Rightarrow> 80),
      config_nr_message_bits = (case opt_message_bits opts of Some v \<Rightarrow> v | None \<Rightarrow> 0),
      config_nr_hash_bits = (case opt_hash_bits opts of Some v \<Rightarrow> v | None \<Rightarrow> 160),
      config_cnf = opt_cnf opts,
      config_opb = opt_opb opts,
      config_use_xor_clauses = opt_xor opts,
      config_use_halfadder_clauses = opt_halfadder opts,
      config_use_tseitin_adders = opt_tseitin_adders opts,
      config_restrict_branching = opt_restrict_branching opts,
      config_use_compact_adders = opt_compact_adders opts\<rparr>"

definition join_args :: "string list \<Rightarrow> string" where
  "join_args argv = hd argv @ concat (map (\<lambda>x. '' '' @ x) (tl argv))"

definition banner :: "string list \<Rightarrow> nat \<Rightarrow> state \<Rightarrow> state" where
  "banner argv seed s =
     comment (''parameter seed = '' @ show_nat seed)
      (comment (''command line: '' @ join_args argv)
       (comment []
        (comment ''<https://github.com/vegard/sha1-sat>''
         (comment ''Written by Vegard Nossum <vegard.nossum@gmail.com>''
          (comment ''Instance generated by sha1-sat''
           (comment [] s))))))"

definition generate ::
  "config \<Rightarrow> minimizer \<Rightarrow> ('r, 'q) libc \<Rightarrow> string list \<Rightarrow> nat \<Rightarrow> string list \<times> state" where
  "generate cfg M L argv seed =
     (let s = banner argv seed initial_state;
          r0 = libc_srand L (seed mod 2 ^ 32);
          (x, r1) = libc_rand L r0;
          q = libc_srand48 L x
      in if config_attack cfg = ''preimage'' then ([], preimage cfg M L (r1, q) s)
         else if config_attack cfg = ''second-preimage'' then ([], second_preimage cfg M L (r1, q) s)
         else if config_attack cfg = ''collision'' then collision cfg M L (r1, q) s
         else ([], s))"

definition flush :: "config \<Rightarrow> state \<Rightarrow> out_line list" where
  "flush cfg s =
     (if config_cnf cfg then CnfHeader (nr_variables s) (nr_clauses s) # map CnfLine (cnf s) else []) @
     (if config_opb cfg then OpbHeader (nr_variables s) (nr_constraints s) # map OpbLine (opb s) else [])"

definition main ::
  "minimizer \<Rightarrow> ('r, 'q) libc \<Rightarrow> nat \<Rightarrow> string list \<Rightarrow> options \<Rightarrow> result" where
  "main M L clock argv opts =
     (let seed = (case opt_seed opts of Some v \<Rightarrow> v | None \<Rightarrow> clock) in
      if opt_help opts then \<lparr>exit_code = 0, stderr = [], stdout = [HelpText]\<rparr>
      else if length (opt_attack opts) > 1 then failure ''Can only specify --attack once''
      else
        let attack = (if length (opt_attack opts) = 1 then hd (opt_attack opts) else ''preimage'') in
        if attack \<noteq> ''preimage'' \<and> attack \<noteq> ''second-preimage'' \<and> attack \<noteq> ''collision''
        then failure ''Invalid --attack''
        else
          let cfg = configure opts attack in
          if \<not> config_cnf cfg \<and> \<not> config_opb cfg then failure ''Must specify either --cnf or --opb''
          else if config_use_xor_clauses cfg \<and> \<not> config_cnf cfg
            then failure ''Cannot specify --xor without --cnf''
          else if config_use_halfadder_clauses cfg \<and> \<not> config_cnf cfg
            then failure ''Cannot specify --halfadder without --cnf''
          else if config_use_compact_adders cfg \<and> \<not> config_opb cfg
            then failure ''Cannot specify --compact-adders without --opb''
          else
            let (err, s) = generate cfg M L argv seed
            in \<lparr>exit_code = 0, stderr = err, stdout = flush cfg s\<rparr>)"

section \<open>What the emitted lines mean\<close>

text \<open>
  An assignment gives every variable identifier a truth value. The meaning of a line is
  that of its file format: a clause is a disjunction (DIMACS), an \<open>x\<close> line holds when
  an odd number of its literals is true, an \<open>h\<close> line holds when the number of true
  inputs equals the binary number of the outputs (least significant first), a
  pseudo-boolean constraint compares an integer linear combination of literals with its
  right-hand side (OPB). Comments and branching hints constrain nothing.
\<close>

type_synonym assignment = "int \<Rightarrow> bool"

definition lit :: "assignment \<Rightarrow> int \<Rightarrow> bool" where
  "lit \<sigma> x = (if x < 0 then \<not> \<sigma> (- x) else \<sigma> x)"

definition bit_of :: "assignment \<Rightarrow> int \<Rightarrow> int" where
  "bit_of \<sigma> x = of_bool (lit \<sigma> x)"

definition count_true :: "assignment \<Rightarrow> int list \<Rightarrow> int" where
  "count_true \<sigma> xs = sum_list (map (bit_of \<sigma>) xs)"

definition binary_value :: "assignment \<Rightarrow> int list \<Rightarrow> int" where
  "binary_value \<sigma> xs = sum_list (map (\<lambda>i. 2 ^ i * bit_of \<sigma> (xs ! i)) [0..<length xs])"

definition linear_value :: "assignment \<Rightarrow> (int \<times> int) list \<Rightarrow> int" where
  "linear_value \<sigma> ts = sum_list (map (\<lambda>(c, x). c * bit_of \<sigma> x) ts)"

fun sat_cnf_line :: "assignment \<Rightarrow> cnf_line \<Rightarrow> bool" where
  "sat_cnf_line \<sigma> (CnfComment str) = True"
| "sat_cnf_line \<sigma> (Decision x) = True"
| "sat_cnf_line \<sigma> (Clause v) = list_ex (lit \<sigma>) v"
| "sat_cnf_line \<sigma> (XorClause v) = odd (count_true \<sigma> v)"
| "sat_cnf_line \<sigma> (HalfAdder lhs rhs) = (count_true \<sigma> lhs = binary_value \<sigma> rhs)"

fun sat_opb_line :: "assignment \<Rightarrow> opb_line \<Rightarrow> bool" where
  "sat_opb_line \<sigma> (OpbComment str) = True"
| "sat_opb_line \<sigma> (Constraint ts Geq k) = (linear_value \<sigma> ts \<ge> k)"
| "sat_opb_line \<sigma> (Constraint ts Equal k) = (linear_value \<sigma> ts = k)"

definition sat_cnf :: "assignment \<Rightarrow> cnf_line list \<Rightarrow> bool" where
  "sat_cnf \<sigma> ls = list_all (sat_cnf_line \<sigma>) ls"

definition sat_opb :: "assignment \<Rightarrow> opb_line list \<Rightarrow> bool" where
  "sat_opb \<sigma> ls = list_all (sat_opb_line \<sigma>) ls"

text \<open>The value an assignment gives to a word of 32 identifiers, bit 0 first.\<close>

definition word_value :: "assignment \<Rightarrow> int list \<Rightarrow> 32 word" where
  "word_value \<sigma> xs = horner_sum of_bool 2 (map (\<lambda>i. \<sigma> (xs ! i)) [0..<32])"

text \<open>The lines a step appended to the buffers of \<open>s\<close>, given the state after it.\<close>

definition emitted_cnf :: "state \<Rightarrow> state \<Rightarrow> cnf_line list" where
  "emitted_cnf s s' = drop (length (cnf s)) (cnf s')"

definition emitted_opb :: "state \<Rightarrow> state \<Rightarrow> opb_line list" where
  "emitted_opb s s' = drop (length (opb s)) (opb s')"

definition bits32 :: "int \<Rightarrow> int list" where
  "bits32 base = map (\<lambda>i. base + 1 + int i) [0..<32]"

text \<open>The values the configuration variables are initialised with in the source.\<close>

definition default_config :: config where
  "default_config =
     \<lparr>config_attack = ''preimage'', config_nr_rounds = 80, config_nr_message_bits = 0,
      config_nr_hash_bits = 160, config_cnf = False, config_opb = False,
      config_use_xor_clauses = False, config_use_halfadder_clauses = False,
      config_use_tseitin_adders = False, config_restrict_branching = False,
      config_use_compact_adders = False\<rparr>"

section \<open>Concrete parameters used in the examples\<close>

text \<open>
  A minimiser that answers with the rows of the table whose output bit is set, one cube
  per row: a cover of exactly the on-set, though not a minimal one.
\<close>

definition exact_cover :: minimizer where
  "exact_cover T = map (\<lambda>(row, out). map (\<lambda>b. if b then CHR ''1'' else CHR ''0'') row)
                     (filter snd T)"

text \<open>
  A stand-in for the C library: the hidden states are counters, \<open>rand\<close> and
  \<open>lrand48\<close> return the counter, and the shuffle leaves the sequence as it is.
\<close>

definition counter_libc :: "(nat, nat) libc" where
  "counter_libc =
     \<lparr>libc_srand = (\<lambda>seed. seed),
      libc_rand = (\<lambda>r. (r, r + 1)),
      libc_srand48 = (\<lambda>seed. seed),
      libc_lrand48 = (\<lambda>q. (q mod 2 ^ 31, q + 1)),
      libc_random_shuffle = (\<lambda>xs r. (xs, r))\<rparr>"

definition no_options :: options where
  "no_options =
     \<lparr>opt_help = False, opt_seed = None, opt_attack = [], opt_rounds = None,
      opt_message_bits = None, opt_hash_bits = None, opt_cnf = False, opt_opb = False,
      opt_tseitin_adders = False, opt_xor = False, opt_halfadder = False,
      opt_restrict_branching = False, opt_compact_adders = False\<rparr>"

section \<open>Notions used to state the properties\<close>

text \<open>
  The unit clauses by which an attack pins the chosen bits of \<open>h_out\<close> to the bits of
  the reference hash \<open>h\<close>, in the order of the shuffled positions.
\<close>

definition hash_pins :: "config \<Rightarrow> sha1 \<Rightarrow> 32 word list \<Rightarrow> nat list \<Rightarrow> cnf_line list" where
  "hash_pins cfg f h hash_bits =
     map (\<lambda>i. Clause [if bit (h ! (hash_bits ! i div 32)) (hash_bits ! i mod 32)
                       then h_out_vars f ! (hash_bits ! i div 32) ! (hash_bits ! i mod 32)
                       else - (h_out_vars f ! (hash_bits ! i div 32) ! (hash_bits ! i mod 32))])
       [0..<config_nr_hash_bits cfg]"

text \<open>
  The equation of a compact adder is recognised by its coefficients: \<open>2^0 .. 2^31\<close>
  once per operand, then \<open>-2^0 .. -2^31\<close>, with right-hand side 0. The program writes
  adders of two and of five operands.
\<close>

definition adder_coefficients :: "nat \<Rightarrow> int list" where
  "adder_coefficients n =
     concat (replicate n (map (\<lambda>i. 2 ^ i) [0..<32])) @ map (\<lambda>i. - (2 ^ i)) [0..<32]"

fun is_adder_equation :: "opb_line \<Rightarrow> bool" where
  "is_adder_equation (Constraint ts Equal k) =
     (k = 0 \<and> (map fst ts = adder_coefficients 2 \<or> map fst ts = adder_coefficients 5))"
| "is_adder_equation (Constraint ts Geq k) = False"
| "is_adder_equation (OpbComment str) = False"

definition adder_equations :: "state \<Rightarrow> nat" where
  "adder_equations s = length (filter is_adder_equation (opb s))"

fun is_adder_equation_line :: "out_line \<Rightarrow> bool" where
  "is_adder_equation_line (OpbLine l) = is_adder_equation l"
| "is_adder_equation_line HelpText = False"
| "is_adder_equation_line (CnfHeader v c) = False"
| "is_adder_equation_line (CnfLine l) = False"
| "is_adder_equation_line (OpbHeader v c) = False"

text \<open>The number an assignment gives to the low \<open>n\<close> bits of a word of literals.\<close>

definition int_value :: "assignment \<Rightarrow> int list \<Rightarrow> nat \<Rightarrow> int" where
  "int_value \<sigma> xs n = sum_list (map (\<lambda>i. 2 ^ i * bit_of \<sigma> (xs ! i)) [0..<n])"

text \<open>
  An adder in compact mode, and an assignment of its operands \<open>a\<close> (identifiers 1 to 32),
  \<open>b\<close> (33 to 64) and result \<open>r\<close> (65 to 96): bit 31 of \<open>a\<close> and bit 31 of \<open>b\<close> are
  set and nothing else, so \<open>a = b = 0x80000000\<close> and \<open>r = 0\<close>.
\<close>

definition compact_config :: config where
  "compact_config = default_config\<lparr>config_opb := True, config_use_compact_adders := True\<rparr>"

definition wrap_assignment :: assignment where
  "wrap_assignment v = (v = 32 \<or> v = 64)"

text \<open>
  Closed forms for the loops of the half-adder branch. One column allocates its carries
  and emits its constraint (\<open>column\<close>). With two operands every column has one carry,
  and column \<open>i\<close> adds the carry of column \<open>i - 1\<close> to its two operand bits; with five
  operands every column has two carries, and column \<open>i\<close> adds the second carry of column
  \<open>i - 2\<close> and the first carry of column \<open>i - 1\<close> to its five operand bits. \<open>n0\<close> is
  the number of variables before the adder. \<open>pending2\<close> and \<open>pending5\<close> give the
  array \<open>addends\<close> after \<open>n\<close> columns.
\<close>

definition column :: "config \<Rightarrow> minimizer \<Rightarrow> string \<Rightarrow> int list \<Rightarrow> int list \<Rightarrow> state \<Rightarrow> state" where
  "column cfg M label lhs rhs t =
     halfadder cfg M lhs rhs (snd (new_vars cfg label (length rhs - 1) True t))"

definition addends2 :: "int list \<Rightarrow> int list \<Rightarrow> int \<Rightarrow> nat \<Rightarrow> int list" where
  "addends2 a b n0 i = (if 1 \<le> i then [n0 + int i] else []) @ [a ! i, b ! i]"

definition addends5 ::
  "int list \<Rightarrow> int list \<Rightarrow> int list \<Rightarrow> int list \<Rightarrow> int list \<Rightarrow> int \<Rightarrow> nat \<Rightarrow> int list" where
  "addends5 a b c d e n0 i =
     (if 2 \<le> i then [n0 + 2 * int i - 2] else []) @ (if 1 \<le> i then [n0 + 2 * int i - 1] else []) @
     [a ! i, b ! i, c ! i, d ! i, e ! i]"

definition pending2 :: "int list \<Rightarrow> int list \<Rightarrow> int \<Rightarrow> nat \<Rightarrow> nat \<Rightarrow> int list" where
  "pending2 a b n0 n i =
     (if 1 \<le> i \<and> i \<le> n then [n0 + int i] else []) @ (if i < n then [a ! i, b ! i] else [])"

definition pending5 ::
  "int list \<Rightarrow> int list \<Rightarrow> int list \<Rightarrow> int list \<Rightarrow> int list \<Rightarrow> int \<Rightarrow> nat \<Rightarrow> nat \<Rightarrow> int list" where
  "pending5 a b c d e n0 n i =
     (if 2 \<le> i \<and> i \<le> n + 1 then [n0 + 2 * int i - 2] else []) @
     (if 1 \<le> i \<and> i \<le> n then [n0 + 2 * int i - 1] else []) @
     (if i < n then [a ! i, b ! i, c ! i, d ! i, e ! i] else [])"

text \<open>
  The terms of the pseudo-boolean equation of a half-adder constraint, the two lines a
  column appends to the pseudo-boolean buffer, and the test whether a pseudo-boolean
  line mentions a variable.
\<close>

definition halfadder_terms :: "int list \<Rightarrow> int list \<Rightarrow> (int \<times> int) list" where
  "halfadder_terms lhs rhs =
     map (\<lambda>x. (1, x)) lhs @ map (\<lambda>i. (- (2 ^ i), rhs ! i)) [0..<length rhs]"

definition column_lines :: "string \<Rightarrow> int \<Rightarrow> int list \<Rightarrow> int list \<Rightarrow> opb_line list" where
  "column_lines label n lhs rhs =
     [OpbComment (''var '' @ show_int (n + 1) @ ''/'' @ show_nat (length rhs - 1) @ '' '' @ label),
      Constraint (halfadder_terms lhs rhs) Equal 0]"

fun opb_mentions :: "int \<Rightarrow> opb_line \<Rightarrow> bool" where
  "opb_mentions x (Constraint ts c k) = list_ex (\<lambda>t. \<bar>snd t\<bar> = x) ts"
| "opb_mentions x (OpbComment str) = False"

text \<open>A state in which \<open>n\<close> variables are allocated and nothing is emitted yet.\<close>

definition adder_state :: "int \<Rightarrow> state" where
  "adder_state n = initial_state\<lparr>nr_variables := n\<rparr>"

fun decision_of :: "cnf_line \<Rightarrow> int list" where
  "decision_of (Decision x) = [x]"
| "decision_of (CnfComment str) = []"
| "decision_of (Clause v) = []"
| "decision_of (XorClause v) = []"
| "decision_of (HalfAdder lhs rhs) = []"

definition decisions :: "cnf_line list \<Rightarrow> int list" where
  "decisions ls = concat (map decision_of ls)"

definition hinted :: "config \<Rightarrow> state \<Rightarrow> state \<Rightarrow> bool" where
  "hinted cfg s s' \<longleftrightarrow>
     nr_variables s \<le> nr_variables s' \<and>
     decisions (cnf s') = decisions (cnf s) @
       (if config_restrict_branching cfg then [nr_variables s + 1..nr_variables s'] else [])"

definition cached_cubes :: "minimizer \<Rightarrow> state \<Rightarrow> nat \<Rightarrow> nat \<Rightarrow> int list list" where
  "cached_cubes M s n m =
     (case map_of (cache s) (n, m) of Some cs \<Rightarrow> cs
      | None \<Rightarrow> read_cubes (n + m) (M (truth_table n m)))"

definition restricted_config :: config where
  "restricted_config = default_config\<lparr>config_restrict_branching := True\<rparr>"

text \<open>
  Notions for the dependence of the output on the command line: a state with lines put in
  front of its two buffers, the attack run from a given state (the part of \<open>generate\<close>
  after the banner), the relation between two output lines that are equal or are the
  echoes of two command lines, the attack \<open>main\<close> selects, and the options it accepts.
\<close>

definition prepend :: "cnf_line list \<Rightarrow> opb_line list \<Rightarrow> state \<Rightarrow> state" where
  "prepend p q s = s\<lparr>cnf := p @ cnf s, opb := q @ opb s\<rparr>"

definition run_attack ::
  "config \<Rightarrow> minimizer \<Rightarrow> ('r, 'q) libc \<Rightarrow> nat \<Rightarrow> state \<Rightarrow> string list \<times> state" where
  "run_attack cfg M L seed s =
     (let r0 = libc_srand L (seed mod 2 ^ 32);
          (x, r1) = libc_rand L r0;
          q = libc_srand48 L x
      in if config_attack cfg = ''preimage'' then ([], preimage cfg M L (r1, q) s)
         else if config_attack cfg = ''second-preimage'' then ([], second_preimage cfg M L (r1, q) s)
         else if config_attack cfg = ''collision'' then collision cfg M L (r1, q) s
         else ([], s))"

definition echo_differs :: "string list \<Rightarrow> string list \<Rightarrow> out_line \<Rightarrow> out_line \<Rightarrow> bool" where
  "echo_differs argv1 argv2 x y \<longleftrightarrow>
     x = y \<or>
     x = CnfLine (CnfComment (''command line: '' @ join_args argv1)) \<and>
     y = CnfLine (CnfComment (''command line: '' @ join_args argv2)) \<or>
     x = OpbLine (OpbComment (''command line: '' @ join_args argv1)) \<and>
     y = OpbLine (OpbComment (''command line: '' @ join_args argv2))"

definition seeded_options :: options where
  "seeded_options = no_options\<lparr>opt_cnf := True, opt_seed := Some 1\<rparr>"

definition chosen_attack :: "options \<Rightarrow> string" where
  "chosen_attack opts = (if length (opt_attack opts) = 1 then hd (opt_attack opts) else ''preimage'')"

definition accepted :: "options \<Rightarrow> bool" where
  "accepted opts \<longleftrightarrow>
     \<not> opt_help opts \<and> length (opt_attack opts) \<le> 1 \<and>
     (chosen_attack opts = ''preimage'' \<or> chosen_attack opts = ''second-preimage'' \<or>
      chosen_attack opts = ''collision'') \<and>
     (opt_cnf opts \<or> opt_opb opts) \<and> (opt_xor opts \<longrightarrow> opt_cnf opts) \<and>
     (opt_halfadder opts \<longrightarrow> opt_cnf opts) \<and> (opt_compact_adders opts \<longrightarrow> opt_opb opts)"

section \<open>Basic facts about the sinks\<close>

lemma sat_cnf_append [simp]: "sat_cnf \<sigma> (xs @ ys) = (sat_cnf \<sigma> xs \<and> sat_cnf \<sigma> ys)"
  by (simp add: sat_cnf_def)

lemma sat_opb_append [simp]: "sat_opb \<sigma> (xs @ ys) = (sat_opb \<sigma> xs \<and> sat_opb \<sigma> ys)"
  by (simp add: sat_opb_def)

lemma sat_cnf_Nil [simp]: "sat_cnf \<sigma> []"
  by (simp add: sat_cnf_def)

lemma sat_opb_Nil [simp]: "sat_opb \<sigma> []"
  by (simp add: sat_opb_def)

lemma sat_cnf_Cons [simp]: "sat_cnf \<sigma> (l # ls) = (sat_cnf_line \<sigma> l \<and> sat_cnf \<sigma> ls)"
  by (simp add: sat_cnf_def)

lemma sat_opb_Cons [simp]: "sat_opb \<sigma> (l # ls) = (sat_opb_line \<sigma> l \<and> sat_opb \<sigma> ls)"
  by (simp add: sat_opb_def)

lemma lit_pos [simp]: "0 < x \<Longrightarrow> lit \<sigma> x = \<sigma> x"
  by (simp add: lit_def)

lemma lit_neg [simp]: "0 < x \<Longrightarrow> lit \<sigma> (- x) = (\<not> \<sigma> x)"
  by (simp add: lit_def)

lemma lit_uminus: "x \<noteq> 0 \<Longrightarrow> lit \<sigma> (- x) = (\<not> lit \<sigma> x)"
  by (simp add: lit_def)

lemma comment_fields [simp]:
  "cnf (comment str s) = cnf s @ [CnfComment str]"
  "opb (comment str s) = opb s @ [OpbComment str]"
  "nr_variables (comment str s) = nr_variables s"
  "nr_clauses (comment str s) = nr_clauses s"
  "nr_xor_clauses (comment str s) = nr_xor_clauses s"
  "nr_constraints (comment str s) = nr_constraints s"
  "cache (comment str s) = cache s"
  by (simp_all add: comment_def)

lemma clause_fields [simp]:
  "cnf (clause v s) = cnf s @ [Clause v]"
  "opb (clause v s) = opb s @ [Constraint (map (\<lambda>x. (1, x)) v) Geq 1]"
  "nr_variables (clause v s) = nr_variables s"
  "nr_clauses (clause v s) = nr_clauses s + 1"
  "nr_xor_clauses (clause v s) = nr_xor_clauses s"
  "nr_constraints (clause v s) = nr_constraints s + 1"
  "cache (clause v s) = cache s"
  by (simp_all add: clause_def)

lemma xor_clause_fields [simp]:
  "cnf (xor_clause v s) = cnf s @ [XorClause v]"
  "opb (xor_clause v s) = opb s"
  "nr_variables (xor_clause v s) = nr_variables s"
  "nr_clauses (xor_clause v s) = nr_clauses s"
  "nr_xor_clauses (xor_clause v s) = nr_xor_clauses s + 1"
  "nr_constraints (xor_clause v s) = nr_constraints s"
  "cache (xor_clause v s) = cache s"
  by (simp_all add: xor_clause_def)

lemma constant_bit_fields [simp]:
  "cnf (constant_bit r v s) = cnf s @ [Clause [if v then r else - r]]"
  "opb (constant_bit r v s) = opb s @ [Constraint [(1, r)] Equal (if v then 1 else 0)]"
  "nr_variables (constant_bit r v s) = nr_variables s"
  "nr_clauses (constant_bit r v s) = nr_clauses s + 1"
  "nr_xor_clauses (constant_bit r v s) = nr_xor_clauses s"
  "nr_constraints (constant_bit r v s) = nr_constraints s + 1"
  "cache (constant_bit r v s) = cache s"
  by (simp_all add: constant_bit_def)

text \<open>
  A loop whose body adds to a buffer constraints that mean \<open>P x\<close>: the buffer after the
  loop means what it meant before, and \<open>P\<close> on every index.
\<close>

lemma fold_holds:
  assumes "\<And>x s. H (f x s) = (H s \<and> P x)"
  shows "H (fold f xs s) = (H s \<and> list_all P xs)"
  using assms by (induction xs arbitrary: s) auto

lemma list_all_upt: "list_all P [0..<n] = (\<forall>j<n. P j)"
  by (auto simp: list_all_iff)

subsection \<open>The clause groups of the two clause-level mixing functions\<close>

lemma majority_bit_cnf:
  "cnf (majority_bit f b c d j s) = cnf s @
     [Clause [- (f ! j), b ! j, c ! j], Clause [- (f ! j), b ! j, d ! j],
      Clause [- (f ! j), c ! j, d ! j], Clause [f ! j, - (b ! j), - (c ! j)],
      Clause [f ! j, - (b ! j), - (d ! j)], Clause [f ! j, - (c ! j), - (d ! j)]]"
  by (simp add: majority_bit_def)

lemma choice_bit_cnf:
  "cnf (choice_bit f b c d j s) = cnf s @
     [Clause [- (f ! j), - (b ! j), c ! j], Clause [- (f ! j), b ! j, d ! j],
      Clause [- (f ! j), c ! j, d ! j], Clause [f ! j, - (b ! j), - (c ! j)],
      Clause [f ! j, b ! j, - (d ! j)], Clause [f ! j, - (c ! j), - (d ! j)]]"
  by (simp add: choice_bit_def)

lemma majority_bit_sat:
  assumes "0 < f ! j" "0 < b ! j" "0 < c ! j" "0 < d ! j"
  shows "sat_cnf \<sigma> (cnf (majority_bit f b c d j s)) =
         (sat_cnf \<sigma> (cnf s) \<and>
          \<sigma> (f ! j) = (\<sigma> (b ! j) \<and> \<sigma> (c ! j) \<or> \<sigma> (b ! j) \<and> \<sigma> (d ! j) \<or> \<sigma> (c ! j) \<and> \<sigma> (d ! j)))"
  using assms by (auto simp: majority_bit_cnf)

lemma choice_bit_sat:
  assumes "0 < f ! j" "0 < b ! j" "0 < c ! j" "0 < d ! j"
  shows "sat_cnf \<sigma> (cnf (choice_bit f b c d j s)) =
         (sat_cnf \<sigma> (cnf s) \<and>
          \<sigma> (f ! j) = (\<sigma> (b ! j) \<and> \<sigma> (c ! j) \<or> \<not> \<sigma> (b ! j) \<and> \<sigma> (d ! j)))"
  using assms by (auto simp: choice_bit_cnf)

lemma fold_holds_in:
  assumes "\<And>x s. x \<in> set xs \<Longrightarrow> H (f x s) = (H s \<and> P x)"
  shows "H (fold f xs s) = (H s \<and> list_all P xs)"
  using assms by (induction xs arbitrary: s) auto

lemma bits32_nth [simp]: "j < 32 \<Longrightarrow> bits32 base ! j = base + 1 + int j"
  by (simp add: bits32_def)

lemma length_bits32 [simp]: "length (bits32 base) = 32"
  by (simp add: bits32_def)

section \<open>The mixing function of rounds 40 to 59\<close>

text \<open>
  Claim C5. In a round \<open>i\<close> with \<open>40 \<le> i < 60\<close> the mixing function is the loop of
  \<open>majority_bit\<close>; for every bit position \<open>j\<close> it appends exactly six clauses of
  three literals; an assignment satisfies the six clauses if and only if it gives
  \<open>f[j]\<close> the majority of \<open>b[j]\<close>, \<open>c[j]\<close> and \<open>d[j]\<close>; and every assignment that
  satisfies them satisfies the clause \<open>f \<or> \<not>b \<or> \<not>c \<or> \<not>d\<close> that the source leaves
  commented out.
\<close>

theorem majority_clauses:
  assumes "40 \<le> i" "i < 60" "j < 32"
    and "0 < f ! j" "0 < b ! j" "0 < c ! j" "0 < d ! j"
  shows "mixing cfg i f b c d s = fold (majority_bit f b c d) [0..<32] s \<and>
         emitted_cnf t (majority_bit f b c d j t) =
           [Clause [- (f ! j), b ! j, c ! j], Clause [- (f ! j), b ! j, d ! j],
            Clause [- (f ! j), c ! j, d ! j], Clause [f ! j, - (b ! j), - (c ! j)],
            Clause [f ! j, - (b ! j), - (d ! j)], Clause [f ! j, - (c ! j), - (d ! j)]] \<and>
         (sat_cnf \<sigma> (emitted_cnf t (majority_bit f b c d j t)) \<longleftrightarrow>
            \<sigma> (f ! j) = (\<sigma> (b ! j) \<and> \<sigma> (c ! j) \<or> \<sigma> (b ! j) \<and> \<sigma> (d ! j) \<or> \<sigma> (c ! j) \<and> \<sigma> (d ! j))) \<and>
         (sat_cnf \<sigma> (emitted_cnf t (majority_bit f b c d j t)) \<longrightarrow>
            sat_cnf_line \<sigma> (Clause [f ! j, - (b ! j), - (c ! j), - (d ! j)]))"
proof -
  have m: "mixing cfg i f b c d s = fold (majority_bit f b c d) [0..<32] s"
    using assms(1,2) by (simp add: mixing_def)
  have e: "emitted_cnf t (majority_bit f b c d j t) =
           [Clause [- (f ! j), b ! j, c ! j], Clause [- (f ! j), b ! j, d ! j],
            Clause [- (f ! j), c ! j, d ! j], Clause [f ! j, - (b ! j), - (c ! j)],
            Clause [f ! j, - (b ! j), - (d ! j)], Clause [f ! j, - (c ! j), - (d ! j)]]"
    by (simp add: emitted_cnf_def majority_bit_cnf)
  have v: "sat_cnf \<sigma> (emitted_cnf t (majority_bit f b c d j t)) \<longleftrightarrow>
            \<sigma> (f ! j) = (\<sigma> (b ! j) \<and> \<sigma> (c ! j) \<or> \<sigma> (b ! j) \<and> \<sigma> (d ! j) \<or> \<sigma> (c ! j) \<and> \<sigma> (d ! j))"
    unfolding e using assms(4-7) by auto
  have r: "sat_cnf \<sigma> (emitted_cnf t (majority_bit f b c d j t)) \<longrightarrow>
            sat_cnf_line \<sigma> (Clause [f ! j, - (b ! j), - (c ! j), - (d ! j)])"
    unfolding e using assms(4-7) by auto
  from m e v r show ?thesis by blast
qed

theorem majority_clauses_witness:
  "mixing default_config 40 (bits32 0) (bits32 32) (bits32 64) (bits32 96) initial_state =
     fold (majority_bit (bits32 0) (bits32 32) (bits32 64) (bits32 96)) [0..<32] initial_state \<and>
   sat_cnf (\<lambda>v. True)
     (emitted_cnf initial_state
        (majority_bit (bits32 0) (bits32 32) (bits32 64) (bits32 96) 0 initial_state)) \<and>
   sat_cnf_line (\<lambda>v. True) (Clause [bits32 0 ! 0, - (bits32 32 ! 0), - (bits32 64 ! 0), - (bits32 96 ! 0)])"
  using majority_clauses [of 40 0 "bits32 0" "bits32 32" "bits32 64" "bits32 96" default_config initial_state
      initial_state "\<lambda>v. True"]
  by simp

section \<open>The driver: validation, warnings and the seed\<close>

lemma main_generates:
  assumes "\<not> opt_help opts" "length (opt_attack opts) \<le> 1"
    and "attack = (if length (opt_attack opts) = 1 then hd (opt_attack opts) else ''preimage'')"
    and "attack = ''preimage'' \<or> attack = ''second-preimage'' \<or> attack = ''collision''"
    and "opt_cnf opts \<or> opt_opb opts" "opt_xor opts \<longrightarrow> opt_cnf opts"
    and "opt_halfadder opts \<longrightarrow> opt_cnf opts" "opt_compact_adders opts \<longrightarrow> opt_opb opts"
    and "seed = (case opt_seed opts of Some v \<Rightarrow> v | None \<Rightarrow> clock)"
    and "cfg = configure opts attack"
  shows "main M L clock argv opts =
           \<lparr>exit_code = 0, stderr = fst (generate cfg M L argv seed),
            stdout = flush cfg (snd (generate cfg M L argv seed))\<rparr>"
proof -
  have c: "config_cnf cfg = opt_cnf opts" "config_opb cfg = opt_opb opts"
    "config_use_xor_clauses cfg = opt_xor opts"
    "config_use_halfadder_clauses cfg = opt_halfadder opts"
    "config_use_compact_adders cfg = opt_compact_adders opts"
    using assms(10) by (simp_all add: configure_def)
  from assms(4) have a: "\<not> (attack \<noteq> ''preimage'' \<and> attack \<noteq> ''second-preimage'' \<and> attack \<noteq> ''collision'')"
    by blast
  have l: "\<not> 1 < length (opt_attack opts)" using assms(2) by simp
  show ?thesis
    unfolding main_def Let_def assms(3)[symmetric] assms(9)[symmetric] assms(10)[symmetric]
    using assms(1) l a c assms(5-8)
    by (auto simp: split_def)
qed

lemma generate_preimage:
  "config_attack cfg = ''preimage'' \<Longrightarrow>
   generate cfg M L argv seed =
     ([], preimage cfg M L (snd (libc_rand L (libc_srand L (seed mod 2 ^ 32))),
                            libc_srand48 L (fst (libc_rand L (libc_srand L (seed mod 2 ^ 32)))))
            (banner argv seed initial_state))"
  by (simp add: generate_def Let_def split_def)

lemma generate_second_preimage:
  "config_attack cfg = ''second-preimage'' \<Longrightarrow>
   generate cfg M L argv seed =
     ([], second_preimage cfg M L (snd (libc_rand L (libc_srand L (seed mod 2 ^ 32))),
                            libc_srand48 L (fst (libc_rand L (libc_srand L (seed mod 2 ^ 32)))))
            (banner argv seed initial_state))"
  by (simp add: generate_def Let_def split_def)

lemma config_attack_configure [simp]: "config_attack (configure opts attack) = attack"
  by (simp add: configure_def)

lemma flush_not_empty: "config_cnf cfg \<or> config_opb cfg \<Longrightarrow> flush cfg s \<noteq> []"
  by (auto simp: flush_def)

text \<open>
  Claim C7 (the part the program does not do). The options \<open>--cnf --rounds 15\<close> name a
  round count outside 16..80. The program does not reject them: it exits with code 0,
  writes nothing to standard error and writes an instance to standard output.
\<close>

theorem rounds_out_of_range_accepted:
  "exit_code (main M L clock argv (no_options\<lparr>opt_cnf := True, opt_rounds := Some 15\<rparr>)) = 0 \<and>
   stderr (main M L clock argv (no_options\<lparr>opt_cnf := True, opt_rounds := Some 15\<rparr>)) = [] \<and>
   stdout (main M L clock argv (no_options\<lparr>opt_cnf := True, opt_rounds := Some 15\<rparr>)) \<noteq> []"
proof -
  let ?o = "no_options\<lparr>opt_cnf := True, opt_rounds := Some 15\<rparr>"
  have m: "main M L clock argv ?o =
      \<lparr>exit_code = 0, stderr = fst (generate (configure ?o ''preimage'') M L argv clock),
       stdout = flush (configure ?o ''preimage'') (snd (generate (configure ?o ''preimage'') M L argv clock))\<rparr>"
    by (rule main_generates) (simp_all add: no_options_def)
  have f: "config_cnf (configure ?o ''preimage'')" by (simp add: configure_def no_options_def)
  show ?thesis
    unfolding m using f by (simp add: generate_preimage flush_not_empty)
qed

text \<open>
  The part of claim C7 that the program does: an unknown attack name, two occurrences of
  \<open>--attack\<close>, no output format, and a format-specific flag without its format all end
  with exit code 1, one line on standard error and nothing on standard output.
\<close>

lemma main_rejects:
  assumes "\<not> opt_help opts"
    and "1 < length (opt_attack opts) \<or>
         (length (opt_attack opts) = 1 \<and> hd (opt_attack opts) \<noteq> ''preimage'' \<and>
            hd (opt_attack opts) \<noteq> ''second-preimage'' \<and> hd (opt_attack opts) \<noteq> ''collision'') \<or>
         (\<not> opt_cnf opts \<and> \<not> opt_opb opts) \<or> (opt_xor opts \<and> \<not> opt_cnf opts) \<or>
         (opt_halfadder opts \<and> \<not> opt_cnf opts) \<or> (opt_compact_adders opts \<and> \<not> opt_opb opts)"
  shows "exit_code (main M L clock argv opts) = 1 \<and>
         length (stderr (main M L clock argv opts)) = 1 \<and>
         stdout (main M L clock argv opts) = []"
  using assms by (auto simp: main_def Let_def failure_def configure_def split_def)

section \<open>Loops and allocation\<close>

lemma fold_invariant:
  assumes "\<And>x s. g (f x s) = g s"
  shows "g (fold f xs s) = g s"
  using assms by (induction xs arbitrary: s) auto

lemma fold_counts:
  fixes g :: "'s \<Rightarrow> nat"
  assumes "\<And>x s. g (f x s) = g s + k"
  shows "g (fold f xs s) = g s + k * length xs"
  using assms by (induction xs arbitrary: s) auto

lemma new_vars_fields [simp]:
  "fst (new_vars cfg label n dv s) = fresh_ids s n"
  "opb (snd (new_vars cfg label n dv s)) =
     opb s @ [OpbComment (''var '' @ show_int (nr_variables s + 1) @ ''/'' @ show_nat n @ '' '' @ label)]"
  "nr_variables (snd (new_vars cfg label n dv s)) = nr_variables s + int n"
  "nr_clauses (snd (new_vars cfg label n dv s)) = nr_clauses s"
  "nr_constraints (snd (new_vars cfg label n dv s)) = nr_constraints s"
  "cache (snd (new_vars cfg label n dv s)) = cache s"
  by (simp_all add: new_vars_def Let_def)

lemma new_vars_cnf:
  "cnf (snd (new_vars cfg label n dv s)) =
     cnf s @ CnfComment (''var '' @ show_int (nr_variables s + 1) @ ''/'' @ show_nat n @ '' '' @ label) #
       (if config_restrict_branching cfg
        then map (\<lambda>v. Decision (if dv then v else - v)) (fresh_ids s n) else [])"
  by (simp add: new_vars_def Let_def)

lemma cnf_fold_constant_bit:
  "cnf (fold (\<lambda>i. constant_bit (g i) (v i)) xs s) =
     cnf s @ map (\<lambda>i. Clause [if v i then g i else - g i]) xs"
  by (induction xs arbitrary: s) simp_all

lemma emitted_cnf_append [simp]: "cnf s' = cnf s @ ls \<Longrightarrow> emitted_cnf s s' = ls"
  by (simp add: emitted_cnf_def)

lemma emitted_opb_append [simp]: "opb s' = opb s @ ls \<Longrightarrow> emitted_opb s s' = ls"
  by (simp add: emitted_opb_def)

section \<open>The second-preimage attack without fixed message bits\<close>

lemma second_preimage_zero_cnf:
  assumes "config_nr_message_bits cfg = 0"
  shows "cnf (second_preimage cfg M L rq s) =
     cnf (snd (sha1 cfg M (config_nr_rounds cfg) [] s)) @
       CnfComment ''Fix 0 message bits'' #
       CnfComment (''Fix '' @ show_nat (config_nr_hash_bits cfg) @ '' hash bits'') #
       hash_pins cfg (fst (sha1 cfg M (config_nr_rounds cfg) [] s))
         (sha1_forward (config_nr_rounds cfg) (random_message L (snd rq)))
         (fst (libc_random_shuffle L [0..<160] (snd (libc_random_shuffle L [0..<512] (fst rq)))))"
proof -
  have z: "show_nat 0 = ''0''" by code_simp
  show ?thesis
    using assms
    by (simp add: second_preimage_def Let_def split_def fix_hash_bits_def hash_pins_def
        cnf_fold_constant_bit z)
qed

text \<open>
  Claim C9, as amended. When the second-preimage attack runs with no fixed message bits
  (\<open>--message-bits 0\<close>, or the option left out), the run ends with exit code 0 and
  writes an instance to standard output, nothing is written to standard error, and
  after the circuit the attack appends to the CNF buffer only its two comments and the
  pins of the hash bits: no message bit is pinned.
\<close>

theorem second_preimage_zero_message_bits:
  assumes "\<not> opt_help opts" "opt_attack opts = [''second-preimage'']"
    and "opt_message_bits opts = None \<or> opt_message_bits opts = Some 0"
    and "opt_cnf opts \<or> opt_opb opts" "opt_xor opts \<longrightarrow> opt_cnf opts"
    and "opt_halfadder opts \<longrightarrow> opt_cnf opts" "opt_compact_adders opts \<longrightarrow> opt_opb opts"
  shows "exit_code (main M L clock argv opts) = 0 \<and>
         stderr (main M L clock argv opts) = [] \<and>
         stdout (main M L clock argv opts) \<noteq> [] \<and>
         emitted_cnf (snd (sha1 (configure opts ''second-preimage'') M
                        (config_nr_rounds (configure opts ''second-preimage'')) [] s))
           (second_preimage (configure opts ''second-preimage'') M L rq s) =
           CnfComment ''Fix 0 message bits'' #
           CnfComment (''Fix '' @ show_nat (config_nr_hash_bits (configure opts ''second-preimage'')) @
                       '' hash bits'') #
           hash_pins (configure opts ''second-preimage'')
             (fst (sha1 (configure opts ''second-preimage'') M
                     (config_nr_rounds (configure opts ''second-preimage'')) [] s))
             (sha1_forward (config_nr_rounds (configure opts ''second-preimage''))
                (random_message L (snd rq)))
             (fst (libc_random_shuffle L [0..<160] (snd (libc_random_shuffle L [0..<512] (fst rq)))))"
proof -
  let ?cfg = "configure opts ''second-preimage''"
  let ?seed = "case opt_seed opts of Some v \<Rightarrow> v | None \<Rightarrow> clock"
  have m: "main M L clock argv opts =
      \<lparr>exit_code = 0, stderr = fst (generate ?cfg M L argv ?seed),
       stdout = flush ?cfg (snd (generate ?cfg M L argv ?seed))\<rparr>"
    by (rule main_generates) (use assms in simp_all)
  have f: "config_cnf ?cfg \<or> config_opb ?cfg"
    using assms(4) by (simp add: configure_def)
  have z: "config_nr_message_bits ?cfg = 0"
    using assms(3) by (auto simp: configure_def)
  show ?thesis
    unfolding m using f
    by (simp add: generate_second_preimage flush_not_empty second_preimage_zero_cnf [OF z])
qed

theorem second_preimage_zero_message_bits_witness:
  "exit_code (main exact_cover counter_libc 0 [''sha1-sat'']
      (no_options\<lparr>opt_cnf := True, opt_attack := [''second-preimage''],
                  opt_message_bits := Some 0\<rparr>)) = 0 \<and>
   stdout (main exact_cover counter_libc 0 [''sha1-sat'']
      (no_options\<lparr>opt_cnf := True, opt_attack := [''second-preimage''],
                  opt_message_bits := Some 0\<rparr>)) \<noteq> []"
  using second_preimage_zero_message_bits [of
      "no_options\<lparr>opt_cnf := True, opt_attack := [''second-preimage''], opt_message_bits := Some 0\<rparr>"
      exact_cover counter_libc 0 "[''sha1-sat'']" initial_state "(0, 0)"]
  by (simp add: no_options_def)

text \<open>
  Against claim C9 as stated: on \<open>--cnf --attack second-preimage --message-bits 0\<close>
  the run writes no warning, standard error stays empty.
\<close>

theorem second_preimage_no_warning:
  "stderr (main exact_cover counter_libc 0 [''sha1-sat'']
      (no_options\<lparr>opt_cnf := True, opt_attack := [''second-preimage''],
                  opt_message_bits := Some 0\<rparr>)) = []"
proof -
  let ?o = "no_options\<lparr>opt_cnf := True, opt_attack := [''second-preimage''],
                        opt_message_bits := Some 0\<rparr>"
  have "main exact_cover counter_libc 0 [''sha1-sat''] ?o =
      \<lparr>exit_code = 0,
       stderr = fst (generate (configure ?o ''second-preimage'') exact_cover counter_libc [''sha1-sat''] 0),
       stdout = flush (configure ?o ''second-preimage'')
          (snd (generate (configure ?o ''second-preimage'') exact_cover counter_libc [''sha1-sat''] 0))\<rparr>"
    by (rule main_generates) (simp_all add: no_options_def)
  then show ?thesis by (simp add: generate_second_preimage)
qed

section \<open>Counting the equations of the compact adders\<close>

lemma length_adder_coefficients: "length (adder_coefficients n) = 32 * n + 32"
  by (simp add: adder_coefficients_def length_concat sum_list_replicate)

lemma adder_coefficients_not_single: "[c] \<noteq> adder_coefficients n"
proof
  assume "[c] = adder_coefficients n"
  then have "length [c] = length (adder_coefficients n)" by simp
  then show False by (simp add: length_adder_coefficients)
qed

lemma adder_equations_simps [simp]:
  "adder_equations (comment str s) = adder_equations s"
  "adder_equations (clause v s) = adder_equations s"
  "adder_equations (xor_clause v s) = adder_equations s"
  "adder_equations (constant_bit r b s) = adder_equations s"
  "adder_equations (snd (new_vars cfg label n dv s)) = adder_equations s"
  by (simp_all add: adder_equations_def adder_coefficients_not_single)

lemma adder_equations_constant32 [simp]:
  "adder_equations (constant32 r v s) = adder_equations s"
  unfolding constant32_def
  by (subst fold_invariant [where g = adder_equations]) simp_all

lemma adder_equations_new_constant [simp]:
  "adder_equations (snd (new_constant cfg label v s)) = adder_equations s"
  by (simp add: new_constant_def split_def)

lemma adder_equations_xor3 [simp]:
  "adder_equations (xor3 cfg r a b c n s) = adder_equations s"
proof -
  have i: "adder_equations (fold (\<lambda>j t. if popcount (j XOR 1) mod 2 = 0 then t
             else clause [if bit j 0 then - (r ! i) else r ! i,
                          if bit j 1 then a ! i else - (a ! i),
                          if bit j 2 then b ! i else - (b ! i),
                          if bit j 3 then c ! i else - (c ! i)] t) xs t) = adder_equations t"
    for i xs t
    by (rule fold_invariant) simp
  show ?thesis
    unfolding xor3_def Let_def
    by (simp add: fold_invariant [where g = adder_equations] i)
qed

lemma adder_equations_xor4 [simp]:
  "adder_equations (xor4 cfg r a b c d s) = adder_equations s"
proof -
  have i: "adder_equations (fold (\<lambda>j t. if popcount (j XOR 1) mod 2 = 1 then t
             else clause [if bit j 0 then - (r ! i) else r ! i,
                          if bit j 1 then a ! i else - (a ! i),
                          if bit j 2 then b ! i else - (b ! i),
                          if bit j 3 then c ! i else - (c ! i),
                          if bit j 4 then d ! i else - (d ! i)] t) xs t) = adder_equations t"
    for i xs t
    by (rule fold_invariant) simp
  show ?thesis
    unfolding xor4_def Let_def
    by (simp add: fold_invariant [where g = adder_equations] i)
qed

lemma adder_equations_mixing [simp]:
  "adder_equations (mixing cfg i f b c d s) = adder_equations s"
  by (simp add: mixing_def choice_bit_def majority_bit_def fold_invariant [where g = adder_equations])

lemma adder_equations_alloc_words [simp]:
  "adder_equations (snd (alloc_words cfg label dv xs p)) = adder_equations (snd p)"
  unfolding alloc_words_def
  by (rule fold_invariant [where g = "\<lambda>p. adder_equations (snd p)"]) (simp add: split_def)

lemma adder_equations_schedule [simp]:
  "adder_equations (snd (schedule cfg wt n p)) = adder_equations (snd p)"
  unfolding schedule_def
  by (rule fold_invariant [where g = "\<lambda>p. adder_equations (snd p)"]) (simp add: split_def)

lemma map_fst_compact:
  "map fst (concat (map (\<lambda>x. map (\<lambda>i. (2 ^ i, x ! i)) [0..<32]) xs) @
            map (\<lambda>i. (- (2 ^ i), r ! i)) [0..<32]) = adder_coefficients (length xs)"
  by (induction xs) (simp_all add: adder_coefficients_def comp_def)

lemma is_adder_equation_compact:
  "length xs = 2 \<or> length xs = 5 \<Longrightarrow>
   is_adder_equation (Constraint (concat (map (\<lambda>x. map (\<lambda>i. (2 ^ i, x ! i)) [0..<32]) xs) @
                                  map (\<lambda>i. (- (2 ^ i), r ! i)) [0..<32]) Equal 0)"
  unfolding is_adder_equation.simps map_fst_compact by auto

lemma adder_equations_compact_adder:
  "length xs = 2 \<or> length xs = 5 \<Longrightarrow>
   adder_equations (compact_adder r xs s) = adder_equations s + 1"
  using is_adder_equation_compact [of xs r]
  by (simp add: adder_equations_def compact_adder_def del: is_adder_equation.simps)

lemma adder_equations_add2:
  "config_use_compact_adders cfg \<Longrightarrow> \<not> config_use_tseitin_adders cfg \<Longrightarrow>
   adder_equations (add2 cfg M label r a b s) = adder_equations s + 1"
  by (simp add: add2_def adder_equations_compact_adder)

lemma adder_equations_add5:
  "config_use_compact_adders cfg \<Longrightarrow> \<not> config_use_tseitin_adders cfg \<Longrightarrow>
   adder_equations (add5 cfg M label r a b c d e s) = adder_equations s + 1"
  by (simp add: add5_def adder_equations_compact_adder)

lemma adder_equations_rounds:
  assumes "config_use_compact_adders cfg" "\<not> config_use_tseitin_adders cfg"
  shows "adder_equations (fold (sha1_round cfg M av wv kv) xs s) = adder_equations s + length xs"
proof -
  have "adder_equations (sha1_round cfg M av wv kv i t) = adder_equations t + 1" for i t
    using assms by (simp add: sha1_round_def Let_def split_def adder_equations_add5)
  from fold_counts [where g = adder_equations, OF this] show ?thesis by simp
qed

lemma adder_equations_sha1:
  assumes "config_use_compact_adders cfg" "\<not> config_use_tseitin_adders cfg"
  shows "adder_equations (snd (sha1 cfg M R name s)) = adder_equations s + R + 5"
  using assms
  by (simp add: sha1_def Let_def split_def adder_equations_add2 adder_equations_rounds)

lemma adder_equations_preimage:
  assumes "config_use_compact_adders cfg" "\<not> config_use_tseitin_adders cfg"
  shows "adder_equations (preimage cfg M L rq s) = adder_equations s + config_nr_rounds cfg + 5"
  using assms
  by (simp add: preimage_def Let_def split_def fix_hash_bits_def adder_equations_sha1
      fold_invariant [where g = adder_equations])

lemma adder_equations_banner [simp]: "adder_equations (banner argv seed s) = adder_equations s"
  by (simp add: banner_def)

lemma adder_equations_initial [simp]: "adder_equations initial_state = 0"
  by (simp add: adder_equations_def initial_state_def)

lemma adder_equation_lines_flush:
  "length (filter is_adder_equation_line (flush cfg s)) =
     (if config_opb cfg then adder_equations s else 0)"
  by (simp add: flush_def adder_equations_def filter_map comp_def)

lemma compact_count:
  assumes "\<not> opt_help opts" "opt_attack opts = [] \<or> opt_attack opts = [''preimage'']"
    and "opt_opb opts" "opt_compact_adders opts" "\<not> opt_tseitin_adders opts"
    and "opt_xor opts \<longrightarrow> opt_cnf opts" "opt_halfadder opts \<longrightarrow> opt_cnf opts"
    and "opt_rounds opts = Some R"
  shows "length (filter is_adder_equation_line (stdout (main M L clock argv opts))) = R + 5"
proof -
  let ?cfg = "configure opts ''preimage''"
  let ?seed = "case opt_seed opts of Some v \<Rightarrow> v | None \<Rightarrow> clock"
  have m: "main M L clock argv opts =
      \<lparr>exit_code = 0, stderr = fst (generate ?cfg M L argv ?seed),
       stdout = flush ?cfg (snd (generate ?cfg M L argv ?seed))\<rparr>"
    by (rule main_generates) (use assms in auto)
  have c: "config_use_compact_adders ?cfg" "\<not> config_use_tseitin_adders ?cfg"
    "config_opb ?cfg" "config_nr_rounds ?cfg = R"
    using assms by (simp_all add: configure_def)
  show ?thesis
    unfolding m
    by (simp add: adder_equation_lines_flush generate_preimage adder_equations_preimage c)
qed

text \<open>
  Claim C8, as amended. With \<open>--opb --compact-adders --attack preimage --rounds R\<close> (and no
  Tseitin adders), the lines of standard output that are the equation of an adder number
  exactly \<open>R + 5\<close>: one per round and five for the final additions; 85 for 80 rounds.
\<close>

theorem compact_adder_equation_count:
  assumes "\<not> opt_help opts" "opt_attack opts = [''preimage'']"
    and "opt_opb opts" "opt_compact_adders opts" "\<not> opt_tseitin_adders opts"
    and "opt_xor opts \<longrightarrow> opt_cnf opts" "opt_halfadder opts \<longrightarrow> opt_cnf opts"
    and "opt_rounds opts = Some R" "R \<le> 80"
  shows "length (filter is_adder_equation_line (stdout (main M L clock argv opts))) = R + 5"
  using assms by (intro compact_count) auto

theorem compact_adder_equation_count_witness:
  "length (filter is_adder_equation_line
     (stdout (main exact_cover counter_libc 0 [''sha1-sat'']
        (no_options\<lparr>opt_opb := True, opt_compact_adders := True, opt_attack := [''preimage''],
                    opt_rounds := Some 80, opt_hash_bits := Some 160, opt_seed := Some 1\<rparr>)))) = 85"
  using compact_adder_equation_count [of
      "no_options\<lparr>opt_opb := True, opt_compact_adders := True, opt_attack := [''preimage''],
                  opt_rounds := Some 80, opt_hash_bits := Some 160, opt_seed := Some 1\<rparr>"
      80 exact_cover counter_libc 0 "[''sha1-sat'']"]
  by (simp add: no_options_def)

text \<open>
  Against claim C8 as stated: for 80 rounds the count is not \<open>5 * 80 + 5\<close>.
\<close>

theorem compact_adder_equation_count_not_405:
  "length (filter is_adder_equation_line
     (stdout (main exact_cover counter_libc 0 [''sha1-sat'']
        (no_options\<lparr>opt_opb := True, opt_compact_adders := True, opt_attack := [''preimage''],
                    opt_rounds := Some 80, opt_hash_bits := Some 160, opt_seed := Some 1\<rparr>)))) \<noteq>
   5 * 80 + 5"
proof -
  have "length (filter is_adder_equation_line
     (stdout (main exact_cover counter_libc 0 [''sha1-sat'']
        (no_options\<lparr>opt_opb := True, opt_compact_adders := True, opt_attack := [''preimage''],
                    opt_rounds := Some 80, opt_hash_bits := Some 160, opt_seed := Some 1\<rparr>)))) = 80 + 5"
    by (rule compact_count) (simp_all add: no_options_def)
  then show ?thesis by simp
qed

section \<open>Words, linear constraints and the compact adder\<close>

lemma bit_of_range: "0 \<le> bit_of \<sigma> x \<and> bit_of \<sigma> x \<le> 1"
  by (simp add: bit_of_def)

lemma bit_of_pos: "0 < x \<Longrightarrow> bit_of \<sigma> x = of_bool (\<sigma> x)"
  by (simp add: bit_of_def)

lemma bit_of_eq_1: "bit_of \<sigma> x = 1 \<longleftrightarrow> lit \<sigma> x"
  by (simp add: bit_of_def)

lemma bit_of_eq_0: "bit_of \<sigma> x = 0 \<longleftrightarrow> \<not> lit \<sigma> x"
  by (simp add: bit_of_def)

lemma int_value_0 [simp]: "int_value \<sigma> xs 0 = 0"
  by (simp add: int_value_def)

lemma int_value_Suc [simp]:
  "int_value \<sigma> xs (Suc n) = int_value \<sigma> xs n + 2 ^ n * bit_of \<sigma> (xs ! n)"
  by (simp add: int_value_def)

lemma int_value_bounds: "0 \<le> int_value \<sigma> xs n \<and> int_value \<sigma> xs n < 2 ^ n"
proof (induction n)
  case 0
  then show ?case by simp
next
  case (Suc n)
  have "bit_of \<sigma> (xs ! n) = 0 \<or> bit_of \<sigma> (xs ! n) = 1"
    by (simp add: bit_of_def)
  with Suc show ?case by auto
qed

lemma word_value_int:
  assumes "\<forall>i<32. 0 < xs ! i"
  shows "word_value \<sigma> xs = word_of_int (int_value \<sigma> xs 32)"
proof -
  have "word_value \<sigma> xs = (\<Sum>n = 0..<32. of_bool (\<sigma> (xs ! n)) * 2 ^ n)"
    by (simp add: word_value_def horner_sum_eq_sum)
  also have "\<dots> = word_of_int (\<Sum>n = 0..<32. of_bool (\<sigma> (xs ! n)) * 2 ^ n)"
    by (simp add: of_int_sum)
  also have "(\<Sum>n = 0..<32. of_bool (\<sigma> (xs ! n)) * 2 ^ n) = (\<Sum>n = 0..<32. bit_of \<sigma> (xs ! n) * 2 ^ n)"
    using assms by (intro sum.cong) (simp_all add: bit_of_pos)
  also have "\<dots> = int_value \<sigma> xs 32"
    by (simp add: int_value_def interv_sum_list_conv_sum_set_nat mult.commute)
  finally show ?thesis .
qed

lemma uint_word_value:
  assumes "\<forall>i<32. 0 < xs ! i"
  shows "uint (word_value \<sigma> xs) = int_value \<sigma> xs 32"
  using int_value_bounds [of \<sigma> xs 32]
  by (simp add: word_value_int [OF assms] uint_word_of_int take_bit_int_eq_self)

lemma bit_word_value: "bit (word_value \<sigma> xs) i \<longleftrightarrow> i < 32 \<and> \<sigma> (xs ! i)"
  by (auto simp: word_value_def bit_horner_sum_bit_word_iff)

lemma linear_value_simps [simp]:
  "linear_value \<sigma> [] = 0"
  "linear_value \<sigma> ((c, x) # ts) = c * bit_of \<sigma> x + linear_value \<sigma> ts"
  "linear_value \<sigma> (ts @ us) = linear_value \<sigma> ts + linear_value \<sigma> us"
  by (simp_all add: linear_value_def)

lemma linear_value_weighted:
  "linear_value \<sigma> (map (\<lambda>i. (2 ^ i, x ! i)) [0..<n]) = int_value \<sigma> x n"
  by (induction n) simp_all

lemma linear_value_weighted_neg:
  "linear_value \<sigma> (map (\<lambda>i. (- (2 ^ i), x ! i)) [0..<n]) = - int_value \<sigma> x n"
  by (induction n) simp_all

lemma linear_value_operands:
  "linear_value \<sigma> (concat (map (\<lambda>x. map (\<lambda>i. (2 ^ i, x ! i)) [0..<32]) xs)) =
     sum_list (map (\<lambda>x. int_value \<sigma> x 32) xs)"
  by (induction xs) (simp_all add: linear_value_weighted)

lemma compact_adder_opb [simp]:
  "opb (compact_adder r xs s) = opb s @
     [Constraint (concat (map (\<lambda>x. map (\<lambda>i. (2 ^ i, x ! i)) [0..<32]) xs) @
                  map (\<lambda>i. (- (2 ^ i), r ! i)) [0..<32]) Equal 0]"
  by (simp add: compact_adder_def)

lemma compact_equation_sat:
  "sat_opb_line \<sigma> (Constraint (concat (map (\<lambda>x. map (\<lambda>i. (2 ^ i, x ! i)) [0..<32]) xs) @
                  map (\<lambda>i. (- (2 ^ i), r ! i)) [0..<32]) Equal 0) \<longleftrightarrow>
   sum_list (map (\<lambda>x. int_value \<sigma> x 32) xs) = int_value \<sigma> r 32"
  by (auto simp: linear_value_operands linear_value_weighted_neg)

lemma bits32_positive: "0 \<le> base \<Longrightarrow> \<forall>i<32. 0 < bits32 base ! i"
  by simp

lemma wv1: "word_value wrap_assignment (bits32 0) = 2 ^ 31"
proof (rule bit_word_eqI)
  fix n assume "n < LENGTH(32)"
  then show "bit (word_value wrap_assignment (bits32 0)) n = bit (2 ^ 31 :: 32 word) n"
    unfolding bit_word_value bit_exp_iff by (auto simp: wrap_assignment_def)
qed

lemma wv2: "word_value wrap_assignment (bits32 32) = 2 ^ 31"
proof (rule bit_word_eqI)
  fix n assume "n < LENGTH(32)"
  then show "bit (word_value wrap_assignment (bits32 32)) n = bit (2 ^ 31 :: 32 word) n"
    unfolding bit_word_value bit_exp_iff by (auto simp: wrap_assignment_def)
qed

lemma wv3: "word_value wrap_assignment (bits32 64) = 0"
  by (rule bit_word_eqI) (auto simp: bit_word_value wrap_assignment_def)

text \<open>
  Claim C3 (where the program departs from it). The equation of a compact adder is an
  equation between integers: it holds exactly when the operands add up to the result
  without any wrap-around (\<open>compact_equation_sat\<close>). With \<open>a = b = 0x80000000\<close> and
  \<open>r = 0\<close> the result is the sum modulo \<open>2^32\<close>, and the equation that \<open>add2\<close>
  emits is false.
\<close>

theorem compact_add2_rejects_wrapped_sum:
  "word_value wrap_assignment (bits32 64) =
     word_value wrap_assignment (bits32 0) + word_value wrap_assignment (bits32 32) \<and>
   \<not> sat_opb wrap_assignment
       (emitted_opb s (add2 compact_config M label (bits32 64) (bits32 0) (bits32 32) s))"
proof -
  have c: "config_use_compact_adders compact_config" "\<not> config_use_tseitin_adders compact_config"
    by (simp_all add: compact_config_def default_config_def)
  have e: "emitted_opb s (add2 compact_config M label (bits32 64) (bits32 0) (bits32 32) s) =
     [OpbComment ''add2'',
      Constraint (concat (map (\<lambda>x. map (\<lambda>i. (2 ^ i, x ! i)) [0..<32]) [bits32 0, bits32 32]) @
                  map (\<lambda>i. (- (2 ^ i), bits32 64 ! i)) [0..<32]) Equal 0]"
    using c by (simp add: add2_def)
  have v: "int_value wrap_assignment (bits32 0) 32 = 2 ^ 31"
    "int_value wrap_assignment (bits32 32) 32 = 2 ^ 31"
    "int_value wrap_assignment (bits32 64) 32 = 0"
    using uint_word_value [of "bits32 0" wrap_assignment] uint_word_value [of "bits32 32" wrap_assignment]
      uint_word_value [of "bits32 64" wrap_assignment]
    by (simp_all add: wv1 wv2 wv3)
  have n: "\<not> sat_opb_line wrap_assignment
      (Constraint (concat (map (\<lambda>x. map (\<lambda>i. (2 ^ i, x ! i)) [0..<32]) [bits32 0, bits32 32]) @
                  map (\<lambda>i. (- (2 ^ i), bits32 64 ! i)) [0..<32]) Equal 0)"
    unfolding compact_equation_sat by (simp add: v)
  have w: "word_value wrap_assignment (bits32 64) =
     word_value wrap_assignment (bits32 0) + word_value wrap_assignment (bits32 32)"
    by (simp add: wv1 wv2 wv3)
  from n w show ?thesis
    unfolding e sat_opb_Cons by blast
qed

section \<open>The column loop of the half-adder branch\<close>

lemma floor_log2_values [simp]:
  "floor_log2 2 = 1" "floor_log2 3 = 1" "floor_log2 5 = 2" "floor_log2 6 = 2" "floor_log2 7 = 2"
  by code_simp+

lemma floor_log2_Suc_values [simp]:
  "floor_log2 (Suc (Suc 0)) = Suc 0"
  "floor_log2 (Suc (Suc (Suc 0))) = Suc 0"
  "floor_log2 (Suc (Suc (Suc (Suc (Suc 0))))) = Suc (Suc 0)"
  "floor_log2 (Suc (Suc (Suc (Suc (Suc (Suc 0)))))) = Suc (Suc 0)"
  "floor_log2 (Suc (Suc (Suc (Suc (Suc (Suc (Suc 0))))))) = Suc (Suc 0)"
  using floor_log2_values by (simp_all add: numeral_eq_Suc)

lemma fresh_ids_Suc [simp]:
  "fresh_ids s (Suc 0) = [nr_variables s + 1]"
  "fresh_ids s (Suc (Suc 0)) = [nr_variables s + 1, nr_variables s + 2]"
  by (simp_all add: fresh_ids_def)

lemma upt_small [simp]: "[1..<1 + 1] = [1]" "[1..<1 + 2] = [1, 2]" "[1..<2] = [1]" "[1..<3] = [1,2]"
  by code_simp+

lemma fresh_ids_small [simp]:
  "fresh_ids s 1 = [nr_variables s + 1]"
  "fresh_ids s 2 = [nr_variables s + 1, nr_variables s + 2]"
  by (simp_all add: fresh_ids_def upt_rec)

lemma cube_clause_fields [simp]:
  "cnf (cube_clause lhs rhs c t) = cnf t @ [Clause (map (cube_literal lhs rhs) c)]"
  "opb (cube_clause lhs rhs c t) = opb t"
  "nr_variables (cube_clause lhs rhs c t) = nr_variables t"
  "cache (cube_clause lhs rhs c t) = cache t"
  by (simp_all add: cube_clause_def)

lemma fold_cube_clause [simp]:
  "opb (fold (cube_clause lhs rhs) cs t) = opb t"
  "nr_variables (fold (cube_clause lhs rhs) cs t) = nr_variables t"
  "cache (fold (cube_clause lhs rhs) cs t) = cache t"
  "cnf (fold (cube_clause lhs rhs) cs t) = cnf t @ map (\<lambda>c. Clause (map (cube_literal lhs rhs) c)) cs"
  by (induction cs arbitrary: t) simp_all

lemma halfadder_nr_variables [simp]:
  "nr_variables (halfadder cfg M lhs rhs s) = nr_variables s"
  by (simp add: halfadder_def Let_def split_def split: option.splits)

lemma halfadder_opb [simp]:
  "opb (halfadder cfg M lhs rhs s) = opb s @
     [Constraint (map (\<lambda>x. (1, x)) lhs @ map (\<lambda>i. (- (2 ^ i), rhs ! i)) [0..<length rhs]) Equal 0]"
  by (simp add: halfadder_def Let_def split_def split: option.splits)

lemma column_nr_variables [simp]:
  "nr_variables (column cfg M label lhs rhs t) = nr_variables t + int (length rhs - 1)"
  by (simp add: column_def)

lemma add_column2_step:
  assumes "n < 32" "nr_variables t = n0 + int n"
  shows "add_column cfg M label r [a, b] n (map (pending2 a b n0 n) [0..<37], t) =
         (map (pending2 a b n0 (Suc n)) [0..<37],
          column cfg M (label @ ''_rhs['' @ show_nat n @ '']'') (addends2 a b n0 n)
            [r ! n, n0 + int n + 1] t)"
proof -
  have l: "(map (pending2 a b n0 n) [0..<37])
             [n := pending2 a b n0 n n @ [a ! n, b ! n], Suc n := [n0 + int n + 1]] =
           map (pending2 a b n0 (Suc n)) [0..<37]"
    by (rule nth_equalityI) (use assms(1) in \<open>auto simp: nth_list_update pending2_def\<close>)
  have p: "pending2 a b n0 n n @ [a ! n, b ! n] = addends2 a b n0 n"
    by (simp add: pending2_def addends2_def)
  have q: "pending2 a b n0 n (Suc n) = []"
    by (simp add: pending2_def)
  show ?thesis
    using assms l
    by (auto simp: add_column_def Let_def split_def column_def p q addends2_def split: if_splits)
qed

lemma add_column5_step:
  assumes "n < 32" "nr_variables t = n0 + 2 * int n"
  shows "add_column cfg M label r [a, b, c, d, e] n (map (pending5 a b c d e n0 n) [0..<37], t) =
         (map (pending5 a b c d e n0 (Suc n)) [0..<37],
          column cfg M (label @ ''_rhs['' @ show_nat n @ '']'') (addends5 a b c d e n0 n)
            [r ! n, n0 + 2 * int n + 1, n0 + 2 * int n + 2] t)"
proof -
  have l: "(map (pending5 a b c d e n0 n) [0..<37])
             [n := pending5 a b c d e n0 n n @ [a ! n, b ! n, c ! n, d ! n, e ! n],
              Suc n := pending5 a b c d e n0 n (Suc n) @ [n0 + 2 * int n + 1],
              Suc (Suc n) := [n0 + 2 * int n + 2]] =
           map (pending5 a b c d e n0 (Suc n)) [0..<37]"
    by (rule nth_equalityI) (use assms(1) in \<open>auto simp: nth_list_update pending5_def\<close>)
  have p: "pending5 a b c d e n0 n n @ [a ! n, b ! n, c ! n, d ! n, e ! n] = addends5 a b c d e n0 n"
    by (simp add: pending5_def addends5_def)
  have q: "pending5 a b c d e n0 n (Suc (Suc n)) = []"
    by (simp add: pending5_def)
  show ?thesis
    using assms l
    by (auto simp: add_column_def Let_def split_def column_def p q addends5_def pending5_def
        split: if_splits)
qed

lemma halfadder_adder2:
  assumes "n \<le> 32" "nr_variables s = n0"
  shows "fold (add_column cfg M label r [a, b]) [0..<n] (map (pending2 a b n0 0) [0..<37], s) =
         (map (pending2 a b n0 n) [0..<37],
          fold (\<lambda>i. column cfg M (label @ ''_rhs['' @ show_nat i @ '']'') (addends2 a b n0 i)
                  [r ! i, n0 + int i + 1]) [0..<n] s) \<and>
         nr_variables (fold (\<lambda>i. column cfg M (label @ ''_rhs['' @ show_nat i @ '']'') (addends2 a b n0 i)
                  [r ! i, n0 + int i + 1]) [0..<n] s) = n0 + int n"
  using assms
proof (induction n)
  case 0
  then show ?case by simp
next
  case (Suc n)
  then show ?case by (simp add: add_column2_step)
qed

lemma halfadder_adder5:
  assumes "n \<le> 32" "nr_variables s = n0"
  shows "fold (add_column cfg M label r [a, b, c, d, e]) [0..<n]
           (map (pending5 a b c d e n0 0) [0..<37], s) =
         (map (pending5 a b c d e n0 n) [0..<37],
          fold (\<lambda>i. column cfg M (label @ ''_rhs['' @ show_nat i @ '']'') (addends5 a b c d e n0 i)
                  [r ! i, n0 + 2 * int i + 1, n0 + 2 * int i + 2]) [0..<n] s) \<and>
         nr_variables (fold (\<lambda>i. column cfg M (label @ ''_rhs['' @ show_nat i @ '']'')
                  (addends5 a b c d e n0 i)
                  [r ! i, n0 + 2 * int i + 1, n0 + 2 * int i + 2]) [0..<n] s) = n0 + 2 * int n"
  using assms
proof (induction n)
  case 0
  then show ?case by simp
next
  case (Suc n)
  then show ?case by (simp add: add_column5_step)
qed

lemma pending_empty:
  "map (pending2 a b n0 0) [0..<37] = replicate 37 []"
  "map (pending5 a b c d e n0 0) [0..<37] = replicate 37 []"
  by (auto intro!: nth_equalityI simp: pending2_def pending5_def)

section \<open>The half-adder constraint and the arithmetic of the columns\<close>

lemma count_true_simps [simp]:
  "count_true \<sigma> [] = 0"
  "count_true \<sigma> (x # xs) = bit_of \<sigma> x + count_true \<sigma> xs"
  "count_true \<sigma> (xs @ ys) = count_true \<sigma> xs + count_true \<sigma> ys"
  by (simp_all add: count_true_def)

lemma linear_value_units: "linear_value \<sigma> (map (\<lambda>x. (1, x)) lhs) = count_true \<sigma> lhs"
  by (induction lhs) simp_all

lemma linear_value_binary:
  "linear_value \<sigma> (map (\<lambda>i. (- (2 ^ i), rhs ! i)) [0..<n]) =
     - sum_list (map (\<lambda>i. 2 ^ i * bit_of \<sigma> (rhs ! i)) [0..<n])"
  by (induction n) simp_all

lemma halfadder_equation_sat:
  "sat_opb_line \<sigma> (Constraint (map (\<lambda>x. (1, x)) lhs @
       map (\<lambda>i. (- (2 ^ i), rhs ! i)) [0..<length rhs]) Equal 0) \<longleftrightarrow>
   count_true \<sigma> lhs = binary_value \<sigma> rhs"
  by (simp add: linear_value_units linear_value_binary binary_value_def)

lemma binary_value_2 [simp]:
  "binary_value \<sigma> [x, y] = bit_of \<sigma> x + 2 * bit_of \<sigma> y"
  by (simp add: binary_value_def)

lemma binary_value_3 [simp]:
  "binary_value \<sigma> [x, y, z] = bit_of \<sigma> x + 2 * bit_of \<sigma> y + 4 * bit_of \<sigma> z"
  by (simp add: binary_value_def)

lemma column_sat_opb:
  "sat_opb \<sigma> (opb (column cfg M label lhs rhs s)) \<longleftrightarrow>
     sat_opb \<sigma> (opb s) \<and> count_true \<sigma> lhs = binary_value \<sigma> rhs"
  by (simp add: column_def halfadder_equation_sat del: sat_opb_line.simps(3))

lemma add2_columns:
  assumes "\<forall>i<n. count_true \<sigma> (addends2 a b n0 i) = binary_value \<sigma> [r ! i, n0 + int i + 1]"
  shows "int_value \<sigma> a n + int_value \<sigma> b n =
         int_value \<sigma> r n + 2 ^ n * (if n = 0 then 0 else bit_of \<sigma> (n0 + int n))"
  using assms
proof (induction n)
  case 0
  then show ?case by simp
next
  case (Suc n)
  have ih: "int_value \<sigma> a n + int_value \<sigma> b n =
         int_value \<sigma> r n + 2 ^ n * (if n = 0 then 0 else bit_of \<sigma> (n0 + int n))"
    using Suc by simp
  have "count_true \<sigma> (addends2 a b n0 n) = binary_value \<sigma> [r ! n, n0 + int n + 1]"
    using Suc.prems by simp
  then have col: "(if n = 0 then 0 else bit_of \<sigma> (n0 + int n)) + bit_of \<sigma> (a ! n) + bit_of \<sigma> (b ! n) =
      bit_of \<sigma> (r ! n) + 2 * bit_of \<sigma> (n0 + int n + 1)"
    by (cases "n = 0") (simp_all add: addends2_def)
  have "2 ^ n * ((if n = 0 then 0 else bit_of \<sigma> (n0 + int n)) + bit_of \<sigma> (a ! n) + bit_of \<sigma> (b ! n)) =
      2 ^ n * (bit_of \<sigma> (r ! n) + 2 * bit_of \<sigma> (n0 + int n + 1))"
    by (simp only: col)
  moreover have "n0 + int (Suc n) = n0 + int n + 1" by simp
  ultimately show ?case
    using ih by (simp add: algebra_simps)
qed

lemma word_of_int_wrap: "(word_of_int (x + 2 ^ 32 * c) :: 32 word) = word_of_int x"
  unfolding word_of_int_eq_iff take_bit_eq_mod by simp

lemma add2_columns_word:
  assumes "\<forall>i<32. count_true \<sigma> (addends2 a b n0 i) = binary_value \<sigma> [r ! i, n0 + int i + 1]"
    and "\<forall>i<32. 0 < a ! i" "\<forall>i<32. 0 < b ! i" "\<forall>i<32. 0 < r ! i"
  shows "word_value \<sigma> r = word_value \<sigma> a + word_value \<sigma> b"
proof -
  have "int_value \<sigma> a 32 + int_value \<sigma> b 32 = int_value \<sigma> r 32 + 2 ^ 32 * bit_of \<sigma> (n0 + 32)"
    using add2_columns [OF assms(1)] by simp
  then have "(word_of_int (int_value \<sigma> a 32 + int_value \<sigma> b 32) :: 32 word) =
      word_of_int (int_value \<sigma> r 32 + 2 ^ 32 * bit_of \<sigma> (n0 + 32))"
    by (simp only:)
  then show ?thesis
    unfolding word_value_int [OF assms(2)] word_value_int [OF assms(3)] word_value_int [OF assms(4)]
      word_of_int_wrap wi_hom_add
    by simp
qed

lemma add5_columns:
  assumes "\<forall>i<n. count_true \<sigma> (addends5 a b c d e n0 i) =
             binary_value \<sigma> [r ! i, n0 + 2 * int i + 1, n0 + 2 * int i + 2]"
  shows "int_value \<sigma> a n + int_value \<sigma> b n + int_value \<sigma> c n + int_value \<sigma> d n + int_value \<sigma> e n =
         int_value \<sigma> r n +
         2 ^ n * ((if 2 \<le> n then bit_of \<sigma> (n0 + 2 * int n - 2) else 0) +
                  (if 1 \<le> n then bit_of \<sigma> (n0 + 2 * int n - 1) else 0)) +
         2 ^ (n + 1) * (if 1 \<le> n then bit_of \<sigma> (n0 + 2 * int n) else 0)"
  using assms
proof (induction n)
  case 0
  then show ?case by simp
next
  case (Suc n)
  have ih: "int_value \<sigma> a n + int_value \<sigma> b n + int_value \<sigma> c n + int_value \<sigma> d n + int_value \<sigma> e n =
         int_value \<sigma> r n +
         2 ^ n * ((if 2 \<le> n then bit_of \<sigma> (n0 + 2 * int n - 2) else 0) +
                  (if 1 \<le> n then bit_of \<sigma> (n0 + 2 * int n - 1) else 0)) +
         2 ^ (n + 1) * (if 1 \<le> n then bit_of \<sigma> (n0 + 2 * int n) else 0)"
    using Suc by simp
  have "count_true \<sigma> (addends5 a b c d e n0 n) =
             binary_value \<sigma> [r ! n, n0 + 2 * int n + 1, n0 + 2 * int n + 2]"
    using Suc.prems by simp
  then have col: "(if 2 \<le> n then bit_of \<sigma> (n0 + 2 * int n - 2) else 0) +
      (if 1 \<le> n then bit_of \<sigma> (n0 + 2 * int n - 1) else 0) +
      bit_of \<sigma> (a ! n) + bit_of \<sigma> (b ! n) + bit_of \<sigma> (c ! n) + bit_of \<sigma> (d ! n) +
      bit_of \<sigma> (e ! n) =
      bit_of \<sigma> (r ! n) + 2 * bit_of \<sigma> (n0 + 2 * int n + 1) +
       4 * bit_of \<sigma> (n0 + 2 * int n + 2)"
    by (simp add: addends5_def split: if_splits)
  have "2 ^ n * ((if 2 \<le> n then bit_of \<sigma> (n0 + 2 * int n - 2) else 0) +
      (if 1 \<le> n then bit_of \<sigma> (n0 + 2 * int n - 1) else 0) +
      bit_of \<sigma> (a ! n) + bit_of \<sigma> (b ! n) + bit_of \<sigma> (c ! n) + bit_of \<sigma> (d ! n) +
      bit_of \<sigma> (e ! n)) =
      2 ^ n * (bit_of \<sigma> (r ! n) + 2 * bit_of \<sigma> (n0 + 2 * int n + 1) +
       4 * bit_of \<sigma> (n0 + 2 * int n + 2))"
    by (simp only: col)
  moreover have "n0 + 2 * int (Suc n) - 2 = n0 + 2 * int n" "n0 + 2 * int (Suc n) - 1 = n0 + 2 * int n + 1"
    "n0 + 2 * int (Suc n) = n0 + 2 * int n + 2"
    by simp_all
  ultimately show ?case
    using ih by (cases "1 \<le> n") (simp_all add: algebra_simps)
qed

lemma word_of_int_wrap2: "(word_of_int (x + 2 ^ 32 * c + 2 ^ 33 * d) :: 32 word) = word_of_int x"
proof -
  have "x + 2 ^ 32 * c + 2 ^ 33 * d = x + 2 ^ 32 * (c + 2 * d)" by (simp add: algebra_simps)
  then show ?thesis by (simp only: word_of_int_wrap)
qed

lemma add5_columns_word:
  assumes "\<forall>i<32. count_true \<sigma> (addends5 a b c d e n0 i) =
             binary_value \<sigma> [r ! i, n0 + 2 * int i + 1, n0 + 2 * int i + 2]"
    and "\<forall>i<32. 0 < a ! i" "\<forall>i<32. 0 < b ! i" "\<forall>i<32. 0 < c ! i" "\<forall>i<32. 0 < d ! i"
      "\<forall>i<32. 0 < e ! i" "\<forall>i<32. 0 < r ! i"
  shows "word_value \<sigma> r = word_value \<sigma> a + word_value \<sigma> b + word_value \<sigma> c + word_value \<sigma> d +
           word_value \<sigma> e"
proof -
  have "int_value \<sigma> a 32 + int_value \<sigma> b 32 + int_value \<sigma> c 32 + int_value \<sigma> d 32 + int_value \<sigma> e 32 =
      int_value \<sigma> r 32 + 2 ^ 32 * (bit_of \<sigma> (n0 + 62) + bit_of \<sigma> (n0 + 63)) + 2 ^ 33 * bit_of \<sigma> (n0 + 64)"
    using add5_columns [OF assms(1)] by (simp add: add.commute)
  then have "(word_of_int (int_value \<sigma> a 32 + int_value \<sigma> b 32 + int_value \<sigma> c 32 + int_value \<sigma> d 32 +
        int_value \<sigma> e 32) :: 32 word) =
      word_of_int (int_value \<sigma> r 32 + 2 ^ 32 * (bit_of \<sigma> (n0 + 62) + bit_of \<sigma> (n0 + 63)) +
        2 ^ 33 * bit_of \<sigma> (n0 + 64))"
    by (simp only:)
  then show ?thesis
    unfolding word_value_int [OF assms(2)] word_value_int [OF assms(3)] word_value_int [OF assms(4)]
      word_value_int [OF assms(5)] word_value_int [OF assms(6)] word_value_int [OF assms(7)]
      word_of_int_wrap2 wi_hom_add
    by simp
qed

section \<open>The carries beyond bit 31\<close>

lemma column_opb:
  "opb (column cfg M label lhs rhs t) = opb t @ column_lines label (nr_variables t) lhs rhs"
  by (simp add: column_def column_lines_def halfadder_terms_def)

lemma fold_column_opb:
  assumes "\<And>i. length (R i) - 1 = k"
  shows "opb (fold (\<lambda>i. column cfg M (lbl i) (L i) (R i)) [0..<n] s) =
           opb s @ concat (map (\<lambda>i. column_lines (lbl i) (nr_variables s + int k * int i) (L i) (R i)) [0..<n]) \<and>
         nr_variables (fold (\<lambda>i. column cfg M (lbl i) (L i) (R i)) [0..<n] s) =
           nr_variables s + int k * int n"
  using assms by (induction n) (simp_all add: column_opb algebra_simps)

lemma add2_halfadder_closed:
  assumes "\<not> config_use_tseitin_adders cfg" "\<not> config_use_compact_adders cfg"
  shows "add2 cfg M label r a b s =
     fold (\<lambda>i. column cfg M (label @ ''_rhs['' @ show_nat i @ '']'') (addends2 a b (nr_variables s) i)
            [r ! i, nr_variables s + int i + 1]) [0..<32] (comment ''add2'' s)"
    and "fst (fold (add_column cfg M label r [a, b]) [0..<32] (replicate 37 [], comment ''add2'' s)) =
           map (pending2 a b (nr_variables s) 32) [0..<37]"
  using assms halfadder_adder2 [of 32 "comment ''add2'' s" "nr_variables s" cfg M label r a b]
  by (simp_all add: add2_def halfadder_adder_def pending_empty)

lemma add5_halfadder_closed:
  assumes "\<not> config_use_tseitin_adders cfg" "\<not> config_use_compact_adders cfg"
  shows "add5 cfg M label r a b c d e s =
     fold (\<lambda>i. column cfg M (label @ ''_rhs['' @ show_nat i @ '']'')
            (addends5 a b c d e (nr_variables s) i)
            [r ! i, nr_variables s + 2 * int i + 1, nr_variables s + 2 * int i + 2]) [0..<32]
       (comment ''add5'' s)"
    and "fst (fold (add_column cfg M label r [a, b, c, d, e]) [0..<32]
               (replicate 37 [], comment ''add5'' s)) =
           map (pending5 a b c d e (nr_variables s) 32) [0..<37]"
  using assms halfadder_adder5 [of 32 "comment ''add5'' s" "nr_variables s" cfg M label r a b c d e]
  by (simp_all add: add5_def halfadder_adder_def pending_empty)

lemma add2_halfadder_opb:
  assumes "\<not> config_use_tseitin_adders cfg" "\<not> config_use_compact_adders cfg"
  shows "opb (add2 cfg M label r a b s) = opb s @ OpbComment ''add2'' #
     concat (map (\<lambda>i. column_lines (label @ ''_rhs['' @ show_nat i @ '']'') (nr_variables s + int i)
                        (addends2 a b (nr_variables s) i) [r ! i, nr_variables s + int i + 1]) [0..<32])"
  unfolding add2_halfadder_closed(1) [OF assms]
  using fold_column_opb [where k = 1 and n = 32 and s = "comment ''add2'' s"
      and R = "\<lambda>i. [r ! i, nr_variables s + int i + 1]"]
  by simp

lemma add5_halfadder_opb:
  assumes "\<not> config_use_tseitin_adders cfg" "\<not> config_use_compact_adders cfg"
  shows "opb (add5 cfg M label r a b c d e s) = opb s @ OpbComment ''add5'' #
     concat (map (\<lambda>i. column_lines (label @ ''_rhs['' @ show_nat i @ '']'') (nr_variables s + 2 * int i)
                        (addends5 a b c d e (nr_variables s) i)
                        [r ! i, nr_variables s + 2 * int i + 1, nr_variables s + 2 * int i + 2]) [0..<32])"
  unfolding add5_halfadder_closed(1) [OF assms]
  using fold_column_opb [where k = 2 and n = 32 and s = "comment ''add5'' s"
      and R = "\<lambda>i. [r ! i, nr_variables s + 2 * int i + 1, nr_variables s + 2 * int i + 2]"]
  by simp

lemma sat_opb_concat: "sat_opb \<sigma> (concat (map f xs)) = list_all (\<lambda>x. sat_opb \<sigma> (f x)) xs"
  by (induction xs) simp_all

lemma column_lines_sat:
  "sat_opb \<sigma> (column_lines label n lhs rhs) \<longleftrightarrow> count_true \<sigma> lhs = binary_value \<sigma> rhs"
  using halfadder_equation_sat [of \<sigma> lhs rhs]
  by (simp add: column_lines_def halfadder_terms_def del: sat_opb_line.simps(3))


lemma opb_mentions_halfadder:
  "opb_mentions x (Constraint (halfadder_terms lhs rhs) c k) \<longleftrightarrow> x \<in> abs ` (set lhs \<union> set rhs)"
proof -
  have l: "list_ex (\<lambda>t. \<bar>snd t\<bar> = x) (map (\<lambda>y. (1, y)) lhs) \<longleftrightarrow> x \<in> abs ` set lhs"
    by (auto simp: list_ex_iff)
  have r: "list_ex (\<lambda>t. \<bar>snd t\<bar> = x) (map (\<lambda>i. (- (2 ^ i), rhs ! i)) [0..<length rhs]) \<longleftrightarrow>
           x \<in> abs ` set rhs"
  proof
    assume "list_ex (\<lambda>t. \<bar>snd t\<bar> = x) (map (\<lambda>i. (- (2 ^ i), rhs ! i)) [0..<length rhs])"
    then obtain i where "i < length rhs" "\<bar>rhs ! i\<bar> = x"
      by (auto simp: list_ex_iff)
    then show "x \<in> abs ` set rhs"
      using nth_mem [of i rhs] by blast
  next
    assume "x \<in> abs ` set rhs"
    then obtain y where y: "y \<in> set rhs" "x = \<bar>y\<bar>" by auto
    then obtain i where "i < length rhs" "rhs ! i = y"
      by (auto simp: in_set_conv_nth)
    with y(2) show "list_ex (\<lambda>t. \<bar>snd t\<bar> = x) (map (\<lambda>i. (- (2 ^ i), rhs ! i)) [0..<length rhs])"
      by (auto simp: list_ex_iff intro!: bexI [of _ i])
  qed
  show ?thesis
    unfolding opb_mentions.simps halfadder_terms_def list_ex_append l r by blast
qed

declare opb_mentions.simps(1) [simp del]

lemma column_lines_mentions:
  "list_ex (opb_mentions x) (column_lines label n lhs rhs) \<longleftrightarrow> x \<in> abs ` (set lhs \<union> set rhs)"
  by (simp add: column_lines_def opb_mentions_halfadder)

lemma in_column_lines:
  "l \<in> set (column_lines label n lhs rhs) \<Longrightarrow> opb_mentions x l \<Longrightarrow>
   l = Constraint (halfadder_terms lhs rhs) Equal 0 \<and> x \<in> abs ` (set lhs \<union> set rhs)"
  by (auto simp: column_lines_def opb_mentions_halfadder)

lemma add2_overflow_carry:
  assumes "\<not> config_use_tseitin_adders cfg" "\<not> config_use_compact_adders cfg"
    and "\<forall>i<32. 0 < a ! i \<and> a ! i \<le> nr_variables s \<and> 0 < b ! i \<and> b ! i \<le> nr_variables s \<and>
                0 < r ! i \<and> r ! i \<le> nr_variables s"
  shows "concat (drop 32 (fst (fold (add_column cfg M label r [a, b]) [0..<32]
             (replicate 37 [], comment ''add2'' s)))) = [nr_variables s + 32]"
    and "nr_variables (add2 cfg M label r a b s) = nr_variables s + 32"
    and "Constraint (halfadder_terms (addends2 a b (nr_variables s) 31) [r ! 31, nr_variables s + 32])
           Equal 0 \<in> set (emitted_opb s (add2 cfg M label r a b s))"
    and "opb_mentions (nr_variables s + 32)
           (Constraint (halfadder_terms (addends2 a b (nr_variables s) 31) [r ! 31, nr_variables s + 32])
              Equal 0)"
    and "\<forall>l\<in>set (emitted_opb s (add2 cfg M label r a b s)). opb_mentions (nr_variables s + 32) l \<longrightarrow>
           l = Constraint (halfadder_terms (addends2 a b (nr_variables s) 31)
                 [r ! 31, nr_variables s + 32]) Equal 0"
    and "sat_opb \<sigma> (emitted_opb s (add2 cfg M label r a b s)) \<longrightarrow>
           int_value \<sigma> a 32 + int_value \<sigma> b 32 =
             int_value \<sigma> r 32 + 2 ^ 32 * bit_of \<sigma> (nr_variables s + 32) \<and>
           word_value \<sigma> r = word_value \<sigma> a + word_value \<sigma> b"
proof -
  let ?n0 = "nr_variables s"
  let ?f = "\<lambda>i. column_lines (label @ ''_rhs['' @ show_nat i @ '']'') (?n0 + int i)
                        (addends2 a b ?n0 i) [r ! i, ?n0 + int i + 1]"
  have e: "emitted_opb s (add2 cfg M label r a b s) = OpbComment ''add2'' # concat (map ?f [0..<32])"
    using add2_halfadder_opb [OF assms(1,2)] by simp
  have n0: "0 < ?n0"
    using assms(3) [rule_format, of 0] by simp
  have d: "drop 32 [0..<37] = [32, 33, 34, 35, 36]"
    by (simp add: drop_upt upt_rec)
  show "concat (drop 32 (fst (fold (add_column cfg M label r [a, b]) [0..<32]
             (replicate 37 [], comment ''add2'' s)))) = [?n0 + 32]"
    unfolding add2_halfadder_closed(2) [OF assms(1,2)] drop_map d
    by (simp add: pending2_def)
  show "nr_variables (add2 cfg M label r a b s) = ?n0 + 32"
    unfolding add2_halfadder_closed(1) [OF assms(1,2)]
    using fold_column_opb [where k = 1 and n = 32 and s = "comment ''add2'' s"
      and R = "\<lambda>i. [r ! i, nr_variables s + int i + 1]"]
    by simp
  have "?n0 + int 31 + 1 = ?n0 + 32" by simp
  then have "Constraint (halfadder_terms (addends2 a b ?n0 31) [r ! 31, ?n0 + 32]) Equal 0 \<in> set (?f 31)"
    by (simp only: column_lines_def list.set insert_iff simp_thms)
  then have "\<exists>i\<in>set [0..<32]. Constraint (halfadder_terms (addends2 a b ?n0 31) [r ! 31, ?n0 + 32]) Equal 0
      \<in> set (?f i)"
    by (intro bexI [of _ 31]) simp_all
  then show "Constraint (halfadder_terms (addends2 a b ?n0 31) [r ! 31, ?n0 + 32]) Equal 0
      \<in> set (emitted_opb s (add2 cfg M label r a b s))"
    unfolding e by simp
  show "opb_mentions (?n0 + 32)
           (Constraint (halfadder_terms (addends2 a b ?n0 31) [r ! 31, ?n0 + 32]) Equal 0)"
    using n0 by (auto simp: opb_mentions_halfadder image_iff)
  show "\<forall>l\<in>set (emitted_opb s (add2 cfg M label r a b s)). opb_mentions (?n0 + 32) l \<longrightarrow>
           l = Constraint (halfadder_terms (addends2 a b ?n0 31) [r ! 31, ?n0 + 32]) Equal 0"
  proof (intro ballI impI)
    fix l assume l: "l \<in> set (emitted_opb s (add2 cfg M label r a b s))" and m: "opb_mentions (?n0 + 32) l"
    from l m obtain i where i: "i < 32" "l \<in> set (?f i)"
      unfolding e by auto
    from in_column_lines [OF i(2) m]
    have c: "l = Constraint (halfadder_terms (addends2 a b ?n0 i) [r ! i, ?n0 + int i + 1]) Equal 0"
      and x: "?n0 + 32 \<in> abs ` (set (addends2 a b ?n0 i) \<union> set [r ! i, ?n0 + int i + 1])"
      by simp_all
    from assms(3) i(1) have "0 < a ! i" "a ! i \<le> ?n0" "0 < b ! i" "b ! i \<le> ?n0" "0 < r ! i" "r ! i \<le> ?n0"
      by simp_all
    with x i(1) have "i = 31"
      by (cases "1 \<le> i") (auto simp: addends2_def)
    with c show "l = Constraint (halfadder_terms (addends2 a b ?n0 31) [r ! 31, ?n0 + 32]) Equal 0"
      by (simp add: add.commute)
  qed
  show "sat_opb \<sigma> (emitted_opb s (add2 cfg M label r a b s)) \<longrightarrow>
           int_value \<sigma> a 32 + int_value \<sigma> b 32 =
             int_value \<sigma> r 32 + 2 ^ 32 * bit_of \<sigma> (nr_variables s + 32) \<and>
           word_value \<sigma> r = word_value \<sigma> a + word_value \<sigma> b"
  proof
    assume "sat_opb \<sigma> (emitted_opb s (add2 cfg M label r a b s))"
    then have c: "\<forall>i<32. count_true \<sigma> (addends2 a b ?n0 i) = binary_value \<sigma> [r ! i, ?n0 + int i + 1]"
      unfolding e by (simp add: sat_opb_concat column_lines_sat list_all_upt)
    from add2_columns [OF c] add2_columns_word [OF c] assms(3)
    show "int_value \<sigma> a 32 + int_value \<sigma> b 32 =
             int_value \<sigma> r 32 + 2 ^ 32 * bit_of \<sigma> (nr_variables s + 32) \<and>
           word_value \<sigma> r = word_value \<sigma> a + word_value \<sigma> b"
      by simp
  qed
qed


lemma add5_overflow_carry:
  assumes "\<not> config_use_tseitin_adders cfg" "\<not> config_use_compact_adders cfg"
    and "\<forall>i<32. 0 < a ! i \<and> a ! i \<le> nr_variables s \<and> 0 < b ! i \<and> b ! i \<le> nr_variables s \<and>
                0 < c ! i \<and> c ! i \<le> nr_variables s \<and> 0 < d ! i \<and> d ! i \<le> nr_variables s \<and>
                0 < e ! i \<and> e ! i \<le> nr_variables s \<and> 0 < r ! i \<and> r ! i \<le> nr_variables s"
  shows "concat (drop 32 (fst (fold (add_column cfg M label r [a, b, c, d, e]) [0..<32]
             (replicate 37 [], comment ''add5'' s)))) =
           [nr_variables s + 62, nr_variables s + 63, nr_variables s + 64]"
    and "nr_variables (add5 cfg M label r a b c d e s) = nr_variables s + 64"
    and "Constraint (halfadder_terms (addends5 a b c d e (nr_variables s) 30)
             [r ! 30, nr_variables s + 61, nr_variables s + 62]) Equal 0
           \<in> set (emitted_opb s (add5 cfg M label r a b c d e s))"
    and "Constraint (halfadder_terms (addends5 a b c d e (nr_variables s) 31)
             [r ! 31, nr_variables s + 63, nr_variables s + 64]) Equal 0
           \<in> set (emitted_opb s (add5 cfg M label r a b c d e s))"
    and "opb_mentions (nr_variables s + 62)
           (Constraint (halfadder_terms (addends5 a b c d e (nr_variables s) 30)
             [r ! 30, nr_variables s + 61, nr_variables s + 62]) Equal 0)"
    and "opb_mentions (nr_variables s + 63)
           (Constraint (halfadder_terms (addends5 a b c d e (nr_variables s) 31)
             [r ! 31, nr_variables s + 63, nr_variables s + 64]) Equal 0)"
    and "opb_mentions (nr_variables s + 64)
           (Constraint (halfadder_terms (addends5 a b c d e (nr_variables s) 31)
             [r ! 31, nr_variables s + 63, nr_variables s + 64]) Equal 0)"
    and "\<forall>l\<in>set (emitted_opb s (add5 cfg M label r a b c d e s)).
           (opb_mentions (nr_variables s + 62) l \<longrightarrow>
              l = Constraint (halfadder_terms (addends5 a b c d e (nr_variables s) 30)
                    [r ! 30, nr_variables s + 61, nr_variables s + 62]) Equal 0) \<and>
           (opb_mentions (nr_variables s + 63) l \<or> opb_mentions (nr_variables s + 64) l \<longrightarrow>
              l = Constraint (halfadder_terms (addends5 a b c d e (nr_variables s) 31)
                    [r ! 31, nr_variables s + 63, nr_variables s + 64]) Equal 0)"
    and "sat_opb \<sigma> (emitted_opb s (add5 cfg M label r a b c d e s)) \<longrightarrow>
           int_value \<sigma> a 32 + int_value \<sigma> b 32 + int_value \<sigma> c 32 + int_value \<sigma> d 32 +
             int_value \<sigma> e 32 =
             int_value \<sigma> r 32 +
             2 ^ 32 * (bit_of \<sigma> (nr_variables s + 62) + bit_of \<sigma> (nr_variables s + 63)) +
             2 ^ 33 * bit_of \<sigma> (nr_variables s + 64) \<and>
           word_value \<sigma> r = word_value \<sigma> a + word_value \<sigma> b + word_value \<sigma> c + word_value \<sigma> d +
             word_value \<sigma> e"
proof -
  let ?n0 = "nr_variables s"
  let ?R = "\<lambda>i. [r ! i, ?n0 + 2 * int i + 1, ?n0 + 2 * int i + 2]"
  let ?f = "\<lambda>i. column_lines (label @ ''_rhs['' @ show_nat i @ '']'') (?n0 + 2 * int i)
                        (addends5 a b c d e ?n0 i) (?R i)"
  let ?L30 = "Constraint (halfadder_terms (addends5 a b c d e ?n0 30) [r ! 30, ?n0 + 61, ?n0 + 62]) Equal 0"
  let ?L31 = "Constraint (halfadder_terms (addends5 a b c d e ?n0 31) [r ! 31, ?n0 + 63, ?n0 + 64]) Equal 0"
  have e: "emitted_opb s (add5 cfg M label r a b c d e s) = OpbComment ''add5'' # concat (map ?f [0..<32])"
    using add5_halfadder_opb [OF assms(1,2)] by simp
  have n0: "0 < ?n0"
    using assms(3) [rule_format, of 0] by simp
  have d: "drop 32 [0..<37] = [32, 33, 34, 35, 36]"
    by (simp add: drop_upt upt_rec)
  show "concat (drop 32 (fst (fold (add_column cfg M label r [a, b, c, d, e]) [0..<32]
             (replicate 37 [], comment ''add5'' s)))) = [?n0 + 62, ?n0 + 63, ?n0 + 64]"
    unfolding add5_halfadder_closed(2) [OF assms(1,2)] drop_map d
    by (simp add: pending5_def)
  show "nr_variables (add5 cfg M label r a b c d e s) = ?n0 + 64"
    unfolding add5_halfadder_closed(1) [OF assms(1,2)]
    using fold_column_opb [where k = 2 and n = 32 and s = "comment ''add5'' s" and R = ?R]
    by simp
  have r30: "?R 30 = [r ! 30, ?n0 + 61, ?n0 + 62]" and r31: "?R 31 = [r ! 31, ?n0 + 63, ?n0 + 64]"
    by simp_all
  have a30: "?L30 \<in> set (?f 30)" and a31: "?L31 \<in> set (?f 31)"
    unfolding r30 r31 by (simp_all only: column_lines_def list.set insert_iff simp_thms)
  have "\<exists>i\<in>set [0..<32]. ?L30 \<in> set (?f i)"
    by (rule bexI [where P = "\<lambda>i. ?L30 \<in> set (?f i)" and x = 30], rule a30) simp
  moreover have "\<exists>i\<in>set [0..<32]. ?L31 \<in> set (?f i)"
    by (rule bexI [where P = "\<lambda>i. ?L31 \<in> set (?f i)" and x = 31], rule a31) simp
  ultimately show "?L30 \<in> set (emitted_opb s (add5 cfg M label r a b c d e s))"
    "?L31 \<in> set (emitted_opb s (add5 cfg M label r a b c d e s))"
    unfolding e by simp_all
  show "opb_mentions (?n0 + 62) ?L30" "opb_mentions (?n0 + 63) ?L31" "opb_mentions (?n0 + 64) ?L31"
    using n0 by (auto simp: opb_mentions_halfadder image_iff)
  show "\<forall>l\<in>set (emitted_opb s (add5 cfg M label r a b c d e s)).
           (opb_mentions (?n0 + 62) l \<longrightarrow> l = ?L30) \<and>
           (opb_mentions (?n0 + 63) l \<or> opb_mentions (?n0 + 64) l \<longrightarrow> l = ?L31)"
  proof (intro ballI conjI impI)
    fix l assume l: "l \<in> set (emitted_opb s (add5 cfg M label r a b c d e s))"
    have k: "l = ?L30" if m: "opb_mentions (?n0 + 62) l"
    proof -
      from l m obtain i where i: "i < 32" "l \<in> set (?f i)"
        unfolding e by auto
      from in_column_lines [OF i(2) m]
      have c: "l = Constraint (halfadder_terms (addends5 a b c d e ?n0 i) (?R i)) Equal 0"
        and x: "?n0 + 62 \<in> abs ` (set (addends5 a b c d e ?n0 i) \<union> set (?R i))"
        by simp_all
      from assms(3) i(1) have "0 < a ! i" "a ! i \<le> ?n0" "0 < b ! i" "b ! i \<le> ?n0"
        "0 < c ! i" "c ! i \<le> ?n0" "0 < d ! i" "d ! i \<le> ?n0" "0 < e ! i" "e ! i \<le> ?n0"
        "0 < r ! i" "r ! i \<le> ?n0"
        by simp_all
      with x i(1) n0 have "i = 30"
        by (auto simp: addends5_def split: if_splits)
      with c show ?thesis by (simp add: add.commute)
    qed
    have k': "l = ?L31" if m: "opb_mentions x l" and xx: "x = ?n0 + 63 \<or> x = ?n0 + 64" for x
    proof -
      from l m obtain i where i: "i < 32" "l \<in> set (?f i)"
        unfolding e by auto
      from in_column_lines [OF i(2) m]
      have c: "l = Constraint (halfadder_terms (addends5 a b c d e ?n0 i) (?R i)) Equal 0"
        and x: "x \<in> abs ` (set (addends5 a b c d e ?n0 i) \<union> set (?R i))"
        by simp_all
      from assms(3) i(1) have "0 < a ! i" "a ! i \<le> ?n0" "0 < b ! i" "b ! i \<le> ?n0"
        "0 < c ! i" "c ! i \<le> ?n0" "0 < d ! i" "d ! i \<le> ?n0" "0 < e ! i" "e ! i \<le> ?n0"
        "0 < r ! i" "r ! i \<le> ?n0"
        by simp_all
      with x xx i(1) n0 have "i = 31"
        by (auto simp: addends5_def split: if_splits)
      with c show ?thesis by (simp add: add.commute)
    qed
    show "l = ?L30" if "opb_mentions (?n0 + 62) l" using k that .
    show "l = ?L31" if "opb_mentions (?n0 + 63) l \<or> opb_mentions (?n0 + 64) l"
      using that k' by blast
  qed
  show "sat_opb \<sigma> (emitted_opb s (add5 cfg M label r a b c d e s)) \<longrightarrow>
           int_value \<sigma> a 32 + int_value \<sigma> b 32 + int_value \<sigma> c 32 + int_value \<sigma> d 32 +
             int_value \<sigma> e 32 =
             int_value \<sigma> r 32 +
             2 ^ 32 * (bit_of \<sigma> (?n0 + 62) + bit_of \<sigma> (?n0 + 63)) + 2 ^ 33 * bit_of \<sigma> (?n0 + 64) \<and>
           word_value \<sigma> r = word_value \<sigma> a + word_value \<sigma> b + word_value \<sigma> c + word_value \<sigma> d +
             word_value \<sigma> e"
  proof
    assume "sat_opb \<sigma> (emitted_opb s (add5 cfg M label r a b c d e s))"
    then have c: "\<forall>i<32. count_true \<sigma> (addends5 a b c d e ?n0 i) = binary_value \<sigma> (?R i)"
      unfolding e by (simp add: sat_opb_concat column_lines_sat list_all_upt)
    from add5_columns [OF c] add5_columns_word [OF c] assms(3)
    show "int_value \<sigma> a 32 + int_value \<sigma> b 32 + int_value \<sigma> c 32 + int_value \<sigma> d 32 +
             int_value \<sigma> e 32 =
             int_value \<sigma> r 32 +
             2 ^ 32 * (bit_of \<sigma> (?n0 + 62) + bit_of \<sigma> (?n0 + 63)) + 2 ^ 33 * bit_of \<sigma> (?n0 + 64) \<and>
           word_value \<sigma> r = word_value \<sigma> a + word_value \<sigma> b + word_value \<sigma> c + word_value \<sigma> d +
             word_value \<sigma> e"
      by (simp add: add.commute)
  qed
qed

text \<open>
  Claim C10, as amended. In the half-adder mode (neither Tseitin nor compact adders), for
  an adder whose operand and result identifiers are allocated already (positive, at most
  \<open>nr_variables\<close>): the carries routed into the columns 32 and above are the last
  carry of a 2-input adder and the last three carries of a 5-input adder, fresh variables
  of the adder. Each of them is an output bit of the pseudo-boolean constraint of the
  column that allocated it (column 31, or column 30 for the first of the three), and is
  mentioned by no other pseudo-boolean constraint of the adder. An assignment that
  satisfies the adder's constraints gives them the carry out of the 32-bit sum, so that
  the result is the sum of the operands modulo \<open>2^32\<close>.
\<close>

theorem overflow_carries_constrained:
  assumes "\<not> config_use_tseitin_adders cfg" "\<not> config_use_compact_adders cfg"
    and "\<forall>i<32. 0 < a ! i \<and> a ! i \<le> nr_variables s \<and> 0 < b ! i \<and> b ! i \<le> nr_variables s \<and>
                0 < c ! i \<and> c ! i \<le> nr_variables s \<and> 0 < d ! i \<and> d ! i \<le> nr_variables s \<and>
                0 < e ! i \<and> e ! i \<le> nr_variables s \<and> 0 < r ! i \<and> r ! i \<le> nr_variables s"
  shows "(concat (drop 32 (fst (fold (add_column cfg M label r [a, b]) [0..<32]
             (replicate 37 [], comment ''add2'' s)))) = [nr_variables s + 32] \<and>
          nr_variables (add2 cfg M label r a b s) = nr_variables s + 32 \<and>
          Constraint (halfadder_terms (addends2 a b (nr_variables s) 31) [r ! 31, nr_variables s + 32])
            Equal 0 \<in> set (emitted_opb s (add2 cfg M label r a b s)) \<and>
          opb_mentions (nr_variables s + 32)
            (Constraint (halfadder_terms (addends2 a b (nr_variables s) 31) [r ! 31, nr_variables s + 32])
               Equal 0) \<and>
          (\<forall>l\<in>set (emitted_opb s (add2 cfg M label r a b s)). opb_mentions (nr_variables s + 32) l \<longrightarrow>
            l = Constraint (halfadder_terms (addends2 a b (nr_variables s) 31)
                  [r ! 31, nr_variables s + 32]) Equal 0) \<and>
          (sat_opb \<sigma> (emitted_opb s (add2 cfg M label r a b s)) \<longrightarrow>
            int_value \<sigma> a 32 + int_value \<sigma> b 32 =
              int_value \<sigma> r 32 + 2 ^ 32 * bit_of \<sigma> (nr_variables s + 32) \<and>
            word_value \<sigma> r = word_value \<sigma> a + word_value \<sigma> b)) \<and>
         (concat (drop 32 (fst (fold (add_column cfg M label r [a, b, c, d, e]) [0..<32]
             (replicate 37 [], comment ''add5'' s)))) =
           [nr_variables s + 62, nr_variables s + 63, nr_variables s + 64] \<and>
          nr_variables (add5 cfg M label r a b c d e s) = nr_variables s + 64 \<and>
          Constraint (halfadder_terms (addends5 a b c d e (nr_variables s) 30)
             [r ! 30, nr_variables s + 61, nr_variables s + 62]) Equal 0
           \<in> set (emitted_opb s (add5 cfg M label r a b c d e s)) \<and>
          Constraint (halfadder_terms (addends5 a b c d e (nr_variables s) 31)
             [r ! 31, nr_variables s + 63, nr_variables s + 64]) Equal 0
           \<in> set (emitted_opb s (add5 cfg M label r a b c d e s)) \<and>
          opb_mentions (nr_variables s + 62)
           (Constraint (halfadder_terms (addends5 a b c d e (nr_variables s) 30)
             [r ! 30, nr_variables s + 61, nr_variables s + 62]) Equal 0) \<and>
          opb_mentions (nr_variables s + 63)
           (Constraint (halfadder_terms (addends5 a b c d e (nr_variables s) 31)
             [r ! 31, nr_variables s + 63, nr_variables s + 64]) Equal 0) \<and>
          opb_mentions (nr_variables s + 64)
           (Constraint (halfadder_terms (addends5 a b c d e (nr_variables s) 31)
             [r ! 31, nr_variables s + 63, nr_variables s + 64]) Equal 0) \<and>
          (\<forall>l\<in>set (emitted_opb s (add5 cfg M label r a b c d e s)).
           (opb_mentions (nr_variables s + 62) l \<longrightarrow>
              l = Constraint (halfadder_terms (addends5 a b c d e (nr_variables s) 30)
                    [r ! 30, nr_variables s + 61, nr_variables s + 62]) Equal 0) \<and>
           (opb_mentions (nr_variables s + 63) l \<or> opb_mentions (nr_variables s + 64) l \<longrightarrow>
              l = Constraint (halfadder_terms (addends5 a b c d e (nr_variables s) 31)
                    [r ! 31, nr_variables s + 63, nr_variables s + 64]) Equal 0)) \<and>
          (sat_opb \<sigma> (emitted_opb s (add5 cfg M label r a b c d e s)) \<longrightarrow>
           int_value \<sigma> a 32 + int_value \<sigma> b 32 + int_value \<sigma> c 32 + int_value \<sigma> d 32 +
             int_value \<sigma> e 32 =
             int_value \<sigma> r 32 +
             2 ^ 32 * (bit_of \<sigma> (nr_variables s + 62) + bit_of \<sigma> (nr_variables s + 63)) +
             2 ^ 33 * bit_of \<sigma> (nr_variables s + 64) \<and>
           word_value \<sigma> r = word_value \<sigma> a + word_value \<sigma> b + word_value \<sigma> c + word_value \<sigma> d +
             word_value \<sigma> e))"
proof -
  have h: "\<forall>i<32. 0 < a ! i \<and> a ! i \<le> nr_variables s \<and> 0 < b ! i \<and> b ! i \<le> nr_variables s \<and>
                0 < r ! i \<and> r ! i \<le> nr_variables s"
    using assms(3) by simp
  note A = add2_overflow_carry [OF assms(1,2) h]
  note B = add5_overflow_carry [OF assms(1,2,3)]
  show ?thesis
    by (intro conjI A B)
qed

theorem overflow_carries_constrained_witness:
  "concat (drop 32 (fst (fold (add_column default_config exact_cover ''h_out'' (bits32 160)
       [bits32 0, bits32 32]) [0..<32] (replicate 37 [], comment ''add2'' (adder_state 192))))) = [224] \<and>
   nr_variables (add2 default_config exact_cover ''h_out'' (bits32 160) (bits32 0) (bits32 32)
       (adder_state 192)) = 224 \<and>
   concat (drop 32 (fst (fold (add_column default_config exact_cover ''h_out'' (bits32 160)
       [bits32 0, bits32 32, bits32 64, bits32 96, bits32 128]) [0..<32]
       (replicate 37 [], comment ''add5'' (adder_state 192))))) = [254, 255, 256] \<and>
   nr_variables (add5 default_config exact_cover ''h_out'' (bits32 160) (bits32 0) (bits32 32)
       (bits32 64) (bits32 96) (bits32 128) (adder_state 192)) = 256"
  using overflow_carries_constrained [of default_config "bits32 0" "adder_state 192" "bits32 32"
      "bits32 64" "bits32 96" "bits32 128" "bits32 160" exact_cover "''h_out''" "\<lambda>v. False"]
  by (simp add: default_config_def adder_state_def initial_state_def)

text \<open>
  Against claim C10 as stated: in a 2-input adder built when 96 variables exist, the
  carry routed into column 32 is variable 128, and a pseudo-boolean constraint of the
  adder mentions it.
\<close>

theorem overflow_carry_is_mentioned:
  "concat (drop 32 (fst (fold (add_column default_config exact_cover ''h_out'' (bits32 64)
       [bits32 0, bits32 32]) [0..<32] (replicate 37 [], comment ''add2'' (adder_state 96))))) = [128] \<and>
   list_ex (opb_mentions 128)
     (emitted_opb (adder_state 96)
        (add2 default_config exact_cover ''h_out'' (bits32 64) (bits32 0) (bits32 32) (adder_state 96)))"
proof -
  have c: "\<not> config_use_tseitin_adders default_config" "\<not> config_use_compact_adders default_config"
    by (simp_all add: default_config_def)
  have n: "nr_variables (adder_state 96) = 96"
    by (simp add: adder_state_def initial_state_def)
  have h: "\<forall>i<32. 0 < bits32 0 ! i \<and> bits32 0 ! i \<le> nr_variables (adder_state 96) \<and>
                0 < bits32 32 ! i \<and> bits32 32 ! i \<le> nr_variables (adder_state 96) \<and>
                0 < bits32 64 ! i \<and> bits32 64 ! i \<le> nr_variables (adder_state 96)"
    by (simp add: n)
  note A1 = add2_overflow_carry(1) [OF c h, where M = exact_cover and label = "''h_out''", unfolded n]
  note A3 = add2_overflow_carry(3) [OF c h, where M = exact_cover and label = "''h_out''", unfolded n]
  note A4 = add2_overflow_carry(4) [OF c h, unfolded n]
  have "list_ex (opb_mentions 128)
     (emitted_opb (adder_state 96)
        (add2 default_config exact_cover ''h_out'' (bits32 64) (bits32 0) (bits32 32) (adder_state 96)))"
    using A3 A4 by (auto simp: list_ex_iff)
  with A1 show ?thesis by simp
qed

section \<open>Decision hints\<close>

text \<open>
  \<open>hinted cfg s s'\<close>: between the states \<open>s\<close> and \<open>s'\<close> every variable allocated
  received a positive hint, in the order of allocation, when branching is restricted.
\<close>

lemma decisions_simps [simp]:
  "decisions [] = []"
  "decisions (l # ls) = decision_of l @ decisions ls"
  "decisions (ls @ ms) = decisions ls @ decisions ms"
  by (simp_all add: decisions_def)

lemma decisions_map_Decision [simp]: "decisions (map (\<lambda>v. Decision (f v)) xs) = map f xs"
  by (induction xs) simp_all

lemma decisions_map_Clause [simp]: "decisions (map (\<lambda>v. Clause (f v)) xs) = []"
  by (induction xs) simp_all

lemma fresh_ids_upto: "fresh_ids s n = [nr_variables s + 1..nr_variables s + int n]"
proof (induction n)
  case 0
  then show ?case by (simp add: fresh_ids_def)
next
  case (Suc n)
  have "fresh_ids s (Suc n) = fresh_ids s n @ [nr_variables s + 1 + int n]"
    by (simp add: fresh_ids_def)
  moreover have "[nr_variables s + 1..nr_variables s + int (Suc n)] =
      [nr_variables s + 1..nr_variables s + int n] @ [nr_variables s + 1 + int n]"
    using upto_rec2 [of "nr_variables s + 1" "nr_variables s + int (Suc n)"]
    by (simp add: algebra_simps)
  ultimately show ?case using Suc by simp
qed

lemma halfadder_cnf:
  "cnf (halfadder cfg M lhs rhs s) = cnf s @
     (if config_use_halfadder_clauses cfg then [HalfAdder lhs rhs]
      else map (\<lambda>c. Clause (map (cube_literal lhs rhs) c)) (cached_cubes M s (length lhs) (length rhs)))"
  by (simp add: halfadder_def Let_def split_def cached_cubes_def split: option.splits)

lemma hinted_refl: "hinted cfg s s"
  by (simp add: hinted_def)

lemma upto_append: "a \<le> b \<Longrightarrow> b \<le> c \<Longrightarrow> [a + 1..b] @ [b + 1..c] = [a + 1..(c::int)]"
  using upto_split2 [of "a + 1" b c] by (cases "a = b") auto

lemma hinted_trans: "hinted cfg s t \<Longrightarrow> hinted cfg t u \<Longrightarrow> hinted cfg s u"
  by (auto simp: hinted_def upto_append)

lemma hinted_quiet:
  "hinted cfg s t \<Longrightarrow> nr_variables u = nr_variables t \<Longrightarrow>
   decisions (cnf u) = decisions (cnf t) \<Longrightarrow> hinted cfg s u"
  by (simp add: hinted_def)

lemma hinted_new_vars: "hinted cfg s t \<Longrightarrow> hinted cfg s (snd (new_vars cfg label n True t))"
  by (erule hinted_trans) (simp add: hinted_def new_vars_cnf fresh_ids_upto)

lemma hinted_fold:
  assumes "hinted cfg s t" "\<And>x u v. hinted cfg v u \<Longrightarrow> hinted cfg v (f x u)"
  shows "hinted cfg s (fold f xs t)"
  using assms by (induction xs arbitrary: t) simp_all

lemma hinted_fold_snd:
  assumes "hinted cfg s (snd p)" "\<And>x q v. hinted cfg v (snd q) \<Longrightarrow> hinted cfg v (snd (f x q))"
  shows "hinted cfg s (snd (fold f xs p))"
  using assms by (induction xs arbitrary: p) simp_all

lemma hinted_basic:
  "hinted cfg s t \<Longrightarrow> hinted cfg s (comment str t)"
  "hinted cfg s t \<Longrightarrow> hinted cfg s (clause v t)"
  "hinted cfg s t \<Longrightarrow> hinted cfg s (xor_clause v t)"
  "hinted cfg s t \<Longrightarrow> hinted cfg s (constant_bit r b t)"
  "hinted cfg s t \<Longrightarrow> hinted cfg s (halfadder cfg M lhs rhs t)"
  "hinted cfg s t \<Longrightarrow> hinted cfg s (compact_adder rs xs t)"
  by (erule hinted_quiet; simp add: halfadder_cnf compact_adder_def)+

lemmas hinted_rules = hinted_basic hinted_new_vars hinted_fold hinted_fold_snd

lemma hinted_gates:
  "hinted cfg s t \<Longrightarrow> hinted cfg s (constant32 r w t)"
  "hinted cfg s t \<Longrightarrow> hinted cfg s (xor2 cfg r a b n t)"
  "hinted cfg s t \<Longrightarrow> hinted cfg s (xor3 cfg r a b c n t)"
  "hinted cfg s t \<Longrightarrow> hinted cfg s (xor4 cfg r a b c d t)"
  "hinted cfg s t \<Longrightarrow> hinted cfg s (and2 r a b n t)"
  "hinted cfg s t \<Longrightarrow> hinted cfg s (or2 r a b n t)"
  "hinted cfg s t \<Longrightarrow> hinted cfg s (eq cfg a b n t)"
  "hinted cfg s t \<Longrightarrow> hinted cfg s (neq cfg a b n t)"
  "hinted cfg s t \<Longrightarrow> hinted cfg s (mixing cfg i f b c d t)"
  unfolding constant32_def xor2_def xor3_def xor4_def and2_def or2_def eq_def neq_def mixing_def
    choice_bit_def majority_bit_def Let_def
  by (auto intro!: hinted_rules)


lemma hinted_add_column:
  "hinted cfg s (snd p) \<Longrightarrow> hinted cfg s (snd (add_column cfg M label r xs i p))"
  unfolding add_column_def Let_def split_def
  by (auto intro!: hinted_rules)

lemma hinted_halfadder_adder:
  "hinted cfg s t \<Longrightarrow> hinted cfg s (halfadder_adder cfg M label r xs t)"
  unfolding halfadder_adder_def
  by (rule hinted_fold_snd) (simp_all add: hinted_add_column)

lemma hinted_add2:
  "hinted cfg s t \<Longrightarrow> hinted cfg s (add2 cfg M label r a b t)"
  unfolding add2_def Let_def split_def
  by (auto intro!: hinted_rules hinted_gates hinted_halfadder_adder)

lemma hinted_add5:
  "hinted cfg s t \<Longrightarrow> hinted cfg s (add5 cfg M label r a b c d e t)"
  unfolding add5_def Let_def split_def
  by (auto intro!: hinted_rules hinted_gates hinted_halfadder_adder hinted_add2)

lemma hinted_sha1_round:
  "hinted cfg s t \<Longrightarrow> hinted cfg s (sha1_round cfg M av wv kv i t)"
  unfolding sha1_round_def Let_def split_def
  by (auto intro!: hinted_rules hinted_gates hinted_add5)

lemma hinted_alloc_words:
  "hinted cfg s (snd p) \<Longrightarrow> hinted cfg s (snd (alloc_words cfg label True is p))"
  unfolding alloc_words_def Let_def split_def
  by (auto intro!: hinted_rules)

lemma hinted_schedule:
  "hinted cfg s (snd p) \<Longrightarrow> hinted cfg s (snd (schedule cfg wt R p))"
  unfolding schedule_def Let_def split_def
  by (auto intro!: hinted_rules hinted_gates)

lemma hinted_new_constant:
  "hinted cfg s t \<Longrightarrow> hinted cfg s (snd (new_constant cfg label v t))"
  unfolding new_constant_def Let_def split_def
  by (auto intro!: hinted_rules hinted_gates)

lemma alloc_words_nr_variables:
  "nr_variables (snd (alloc_words cfg label dv is p)) = nr_variables (snd p) + 32 * int (length is)"
  unfolding alloc_words_def
  by (induction "is" arbitrary: p) (simp_all add: split_def)

lemma alloc_words_negative:
  assumes "config_restrict_branching cfg"
  shows "decisions (cnf (snd (alloc_words cfg label False is p))) =
     decisions (cnf (snd p)) @
       map uminus [nr_variables (snd p) + 1..nr_variables (snd p) + 32 * int (length is)]"
proof (induction "is" arbitrary: p)
  case Nil
  then show ?case by (simp add: alloc_words_def)
next
  case (Cons i "is")
  let ?q = "((fst p)[i := fst (new_vars cfg (label i) 32 False (snd p))],
             snd (new_vars cfg (label i) 32 False (snd p)))"
  have step: "alloc_words cfg label False (i # is) p = alloc_words cfg label False is ?q"
    by (simp add: alloc_words_def split_def)
  have "[nr_variables (snd p) + 1..nr_variables (snd p) + 32] @
        [nr_variables (snd p) + 32 + 1..nr_variables (snd p) + 32 + 32 * int (length is)] =
        [nr_variables (snd p) + 1..nr_variables (snd p) + 32 + 32 * int (length is)]"
    by (rule upto_append) simp_all
  then have "map uminus [nr_variables (snd p) + 1..nr_variables (snd p) + 32] @
        map uminus [nr_variables (snd p) + 32 + 1..nr_variables (snd p) + 32 + 32 * int (length is)] =
        map uminus [nr_variables (snd p) + 1..nr_variables (snd p) + 32 + 32 * int (length is)]"
    unfolding map_append [symmetric] by simp
  then show ?case
    unfolding step Cons.IH
    using assms by (simp add: new_vars_cnf fresh_ids_upto algebra_simps)
qed

text \<open>
  Claim C4. With \<open>--restrict-branching\<close> the constructor passes
  \<open>!config_restrict_branching\<close>, which is false, as the \<open>decision_var\<close> flag of the
  sixteen message words, and the default \<open>true\<close> everywhere else. So the hint lines of
  the instance are, in order: a negative hint for each of the 512 message bits, then a
  positive hint for every other variable of the instance, of which there are at least 160.
  This is the opposite of the marking the option is documented to give.
\<close>

theorem message_words_get_negative_hints:
  assumes "config_restrict_branching cfg"
  shows "decisions (cnf (snd (sha1 cfg M R name s))) =
           decisions (cnf s) @ map uminus [nr_variables s + 1..nr_variables s + 512] @
             [nr_variables s + 513..nr_variables (snd (sha1 cfg M R name s))] \<and>
         nr_variables s + 672 \<le> nr_variables (snd (sha1 cfg M R name s))"
proof -
  define s1 where "s1 = comment (''parameter nr_rounds = '' @ show_nat R) (comment ''sha1'' s)"
  define p2 where "p2 = alloc_words cfg (\<lambda>i. ''w'' @ name @ ''['' @ show_nat i @ '']'')
                       False [0..<16] (blank 80, s1)"
  define p3 where "p3 = alloc_words cfg (\<lambda>i. ''w'' @ name @ ''['' @ show_nat i @ '']'')
                       True [16..<R] (blank 80, snd p2)"
  define p4 where "p4 = alloc_words cfg (\<lambda>i. ''h'' @ name @ ''_in'' @ show_nat i)
                       True [0..<5] (blank 5, snd p3)"
  let ?s' = "snd (sha1 cfg M R name s)"
  have n2: "nr_variables (snd p2) = nr_variables s + 512"
    by (simp add: p2_def s1_def alloc_words_nr_variables)
  have d2: "decisions (cnf (snd p2)) =
      decisions (cnf s) @ map uminus [nr_variables s + 1..nr_variables s + 512]"
    using alloc_words_negative [OF assms, of "\<lambda>i. ''w'' @ name @ ''['' @ show_nat i @ '']''"
        "[0..<16]" "(blank 80, s1)"]
    by (simp add: p2_def s1_def)
  have h3: "hinted cfg (snd p2) (snd p3)"
    unfolding p3_def by (rule hinted_alloc_words) (simp add: hinted_refl)
  have n4: "nr_variables (snd p4) = nr_variables (snd p3) + 160"
    by (simp add: p4_def alloc_words_nr_variables)
  have h4: "hinted cfg (snd p3) (snd p4)"
    unfolding p4_def by (rule hinted_alloc_words) (simp add: hinted_refl)
  have h: "hinted cfg (snd p4) ?s'"
    using assms
    unfolding sha1_def Let_def split_def p4_def p3_def p2_def s1_def
    by (auto intro!: hinted_rules hinted_gates hinted_add2 hinted_sha1_round hinted_alloc_words
          hinted_schedule hinted_new_constant hinted_refl)
  have "hinted cfg (snd p2) ?s'"
    using h3 h4 h by (blast intro: hinted_trans)
  moreover have "nr_variables (snd p2) + 160 \<le> nr_variables ?s'"
    using h3 h4 h n4 by (simp add: hinted_def)
  ultimately show ?thesis
    using assms n2 d2 by (simp add: hinted_def add.commute)
qed

theorem message_words_get_negative_hints_witness:
  "decisions (cnf (snd (sha1 restricted_config exact_cover 80 [] initial_state))) =
     map uminus [1..512] @
       [513..nr_variables (snd (sha1 restricted_config exact_cover 80 [] initial_state))] \<and>
   672 \<le> nr_variables (snd (sha1 restricted_config exact_cover 80 [] initial_state))"
  using message_words_get_negative_hints [of restricted_config exact_cover 80 "[]" initial_state]
  by (simp add: restricted_config_def default_config_def initial_state_def
        del: upto.simps upto_rec_numeral)

section \<open>The command line in the output\<close>

text \<open>
  Every step of the builder appends to the buffers and reads the other fields of the state
  only, so lines put in front of the buffers stay in front and change nothing else.
\<close>

lemma prepend_fields [simp]:
  "cnf (prepend p q s) = p @ cnf s"
  "opb (prepend p q s) = q @ opb s"
  "nr_variables (prepend p q s) = nr_variables s"
  "nr_clauses (prepend p q s) = nr_clauses s"
  "nr_xor_clauses (prepend p q s) = nr_xor_clauses s"
  "nr_constraints (prepend p q s) = nr_constraints s"
  "cache (prepend p q s) = cache s"
  by (simp_all add: prepend_def)

lemma fresh_ids_prepend [simp]: "fresh_ids (prepend p q s) n = fresh_ids s n"
  by (simp add: fresh_ids_def)

lemma sinks_prepend [simp]:
  "comment str (prepend p q s) = prepend p q (comment str s)"
  "clause v (prepend p q s) = prepend p q (clause v s)"
  "xor_clause v (prepend p q s) = prepend p q (xor_clause v s)"
  "constant_bit x b (prepend p q s) = prepend p q (constant_bit x b s)"
  "cube_clause lhs rhs cb (prepend p q s) = prepend p q (cube_clause lhs rhs cb s)"
  "compact_adder r xs (prepend p q s) = prepend p q (compact_adder r xs s)"
  by (simp_all add: comment_def clause_def xor_clause_def constant_bit_def cube_clause_def
        compact_adder_def prepend_def)

lemma new_vars_prepend [simp]:
  "new_vars cfg label n dv (prepend p q s) =
     (fst (new_vars cfg label n dv s), prepend p q (snd (new_vars cfg label n dv s)))"
  by (simp add: new_vars_def Let_def comment_def prepend_def fresh_ids_def)

lemma fold_prepend:
  assumes "\<And>x t. f x (prepend p q t) = prepend p q (f x t)"
  shows "fold f xs (prepend p q s) = prepend p q (fold f xs s)"
  using assms by (induction xs arbitrary: s) simp_all

lemma fold_prepend_pair:
  assumes "\<And>x a t. f x (a, prepend p q t) = (fst (f x (a, t)), prepend p q (snd (f x (a, t))))"
  shows "fold f xs (a, prepend p q s) =
           (fst (fold f xs (a, s)), prepend p q (snd (fold f xs (a, s))))"
proof (induction xs arbitrary: a s)
  case Nil
  then show ?case by simp
next
  case (Cons x xs)
  have "fold f (x # xs) (a, prepend p q s) =
        fold f xs (fst (f x (a, s)), prepend p q (snd (f x (a, s))))"
    by (simp add: assms)
  then show ?case
    by (simp add: Cons.IH)
qed

lemma halfadder_prepend [simp]:
  "halfadder cfg M lhs rhs (prepend p q s) = prepend p q (halfadder cfg M lhs rhs s)"
proof -
  have f: "fold (cube_clause lhs rhs) cs (prepend p q t) = prepend p q (fold (cube_clause lhs rhs) cs t)"
    for cs t
    by (rule fold_prepend) simp
  have u: "(prepend p q t)\<lparr>cache := c\<rparr> = prepend p q (t\<lparr>cache := c\<rparr>)" for t c
    by (simp add: prepend_def)
  have v: "(prepend p q t)\<lparr>cnf := p @ cnf t @ ls\<rparr> = prepend p q (t\<lparr>cnf := cnf t @ ls\<rparr>)" for t ls
    by (simp add: prepend_def)
  have w: "(prepend p q t)\<lparr>opb := q @ opb t @ ls, nr_constraints := k\<rparr> =
           prepend p q (t\<lparr>opb := opb t @ ls, nr_constraints := k\<rparr>)" for t ls k
    by (simp add: prepend_def)
  show ?thesis
    by (simp add: halfadder_def Let_def split_def f u v w split: option.splits)
qed

lemma gates_prepend [simp]:
  "constant32 r w (prepend p q s) = prepend p q (constant32 r w s)"
  "xor2 cfg r a b n (prepend p q s) = prepend p q (xor2 cfg r a b n s)"
  "xor3 cfg r a b c n (prepend p q s) = prepend p q (xor3 cfg r a b c n s)"
  "xor4 cfg r a b c d (prepend p q s) = prepend p q (xor4 cfg r a b c d s)"
  "and2 r a b n (prepend p q s) = prepend p q (and2 r a b n s)"
  "or2 r a b n (prepend p q s) = prepend p q (or2 r a b n s)"
  "eq cfg a b n (prepend p q s) = prepend p q (eq cfg a b n s)"
  "neq cfg a b n (prepend p q s) = prepend p q (neq cfg a b n s)"
  "mixing cfg i f b c d (prepend p q s) = prepend p q (mixing cfg i f b c d s)"
  by (simp_all add: constant32_def xor2_def xor3_def xor4_def and2_def or2_def eq_def neq_def
        mixing_def choice_bit_def majority_bit_def fold_prepend Let_def)

lemma add_column_prepend:
  "add_column cfg M label r xs i (a, prepend p q s) =
     (fst (add_column cfg M label r xs i (a, s)),
      prepend p q (snd (add_column cfg M label r xs i (a, s))))"
  by (simp add: add_column_def Let_def split_def)

lemma halfadder_adder_prepend [simp]:
  "halfadder_adder cfg M label r xs (prepend p q s) = prepend p q (halfadder_adder cfg M label r xs s)"
  by (simp add: halfadder_adder_def fold_prepend_pair [of "add_column cfg M label r xs", OF add_column_prepend])

lemma add2_prepend [simp]:
  "add2 cfg M label r a b (prepend p q s) = prepend p q (add2 cfg M label r a b s)"
  by (simp add: add2_def Let_def split_def)

lemma add5_prepend [simp]:
  "add5 cfg M label r a b c d e (prepend p q s) = prepend p q (add5 cfg M label r a b c d e s)"
  by (simp add: add5_def Let_def split_def)

lemma sha1_round_prepend [simp]:
  "sha1_round cfg M av wv kv i (prepend p q s) = prepend p q (sha1_round cfg M av wv kv i s)"
  by (simp add: sha1_round_def Let_def split_def)

lemma alloc_words_prepend [simp]:
  "alloc_words cfg label dv is (a, prepend p q s) =
     (fst (alloc_words cfg label dv is (a, s)), prepend p q (snd (alloc_words cfg label dv is (a, s))))"
  unfolding alloc_words_def
  by (rule fold_prepend_pair) (simp add: split_def)

lemma schedule_prepend [simp]:
  "schedule cfg wt R (a, prepend p q s) =
     (fst (schedule cfg wt R (a, s)), prepend p q (snd (schedule cfg wt R (a, s))))"
  unfolding schedule_def
  by (rule fold_prepend_pair) (simp add: split_def)

lemma new_constant_prepend [simp]:
  "new_constant cfg label v (prepend p q s) =
     (fst (new_constant cfg label v s), prepend p q (snd (new_constant cfg label v s)))"
  by (simp add: new_constant_def Let_def split_def)

lemma sha1_prepend [simp]:
  "sha1 cfg M R name (prepend p q s) =
     (fst (sha1 cfg M R name s), prepend p q (snd (sha1 cfg M R name s)))"
  by (simp add: sha1_def Let_def split_def fold_prepend)

lemma attacks_prepend [simp]:
  "fix_hash_bits cfg f h hb (prepend p q s) = prepend p q (fix_hash_bits cfg f h hb s)"
  "preimage cfg M L rq (prepend p q s) = prepend p q (preimage cfg M L rq s)"
  "second_preimage cfg M L rq (prepend p q s) = prepend p q (second_preimage cfg M L rq s)"
  "collision cfg M L rq (prepend p q s) =
     (fst (collision cfg M L rq s), prepend p q (snd (collision cfg M L rq s)))"
  by (simp_all add: fix_hash_bits_def preimage_def second_preimage_def collision_def Let_def
        split_def fold_prepend)

lemma run_attack_prepend:
  "run_attack cfg M L seed (prepend p q s) =
     (fst (run_attack cfg M L seed s), prepend p q (snd (run_attack cfg M L seed s)))"
  by (simp add: run_attack_def Let_def split_def)

lemma generate_run_attack:
  "generate cfg M L argv seed = run_attack cfg M L seed (banner argv seed initial_state)"
  by (simp add: generate_def run_attack_def Let_def)

lemma banner_prepend:
  "banner argv seed initial_state =
     prepend (cnf (banner argv seed initial_state)) (opb (banner argv seed initial_state)) initial_state"
  by (simp add: banner_def comment_def prepend_def initial_state_def)


lemma generate_framed:
  "generate cfg M L argv seed =
     (fst (run_attack cfg M L seed initial_state),
      prepend (cnf (banner argv seed initial_state)) (opb (banner argv seed initial_state))
        (snd (run_attack cfg M L seed initial_state)))"
  unfolding generate_run_attack
  by (subst banner_prepend) (rule run_attack_prepend)

lemma banner_cnf:
  "cnf (banner argv seed initial_state) =
     [CnfComment [], CnfComment ''Instance generated by sha1-sat'',
      CnfComment ''Written by Vegard Nossum <vegard.nossum@gmail.com>'',
      CnfComment ''<https://github.com/vegard/sha1-sat>'', CnfComment [],
      CnfComment (''command line: '' @ join_args argv),
      CnfComment (''parameter seed = '' @ show_nat seed)]"
  by (simp add: banner_def initial_state_def)

lemma banner_opb:
  "opb (banner argv seed initial_state) =
     [OpbComment [], OpbComment ''Instance generated by sha1-sat'',
      OpbComment ''Written by Vegard Nossum <vegard.nossum@gmail.com>'',
      OpbComment ''<https://github.com/vegard/sha1-sat>'', OpbComment [],
      OpbComment (''command line: '' @ join_args argv),
      OpbComment (''parameter seed = '' @ show_nat seed)]"
  by (simp add: banner_def initial_state_def)

lemma echo_differs_refl: "list_all2 (echo_differs argv1 argv2) xs xs"
  by (rule list_all2_refl) (simp add: echo_differs_def)

lemma flush_framed:
  "list_all2 (echo_differs argv1 argv2)
     (flush cfg (prepend (cnf (banner argv1 seed initial_state)) (opb (banner argv1 seed initial_state)) S))
     (flush cfg (prepend (cnf (banner argv2 seed initial_state)) (opb (banner argv2 seed initial_state)) S))"
proof -
  have c: "list_all2 (echo_differs argv1 argv2)
      (map CnfLine (cnf (banner argv1 seed initial_state)) @ map CnfLine (cnf S))
      (map CnfLine (cnf (banner argv2 seed initial_state)) @ map CnfLine (cnf S))"
    by (rule list_all2_appendI [OF _ echo_differs_refl]) (simp add: banner_cnf echo_differs_def)
  have p: "list_all2 (echo_differs argv1 argv2)
      (map OpbLine (opb (banner argv1 seed initial_state)) @ map OpbLine (opb S))
      (map OpbLine (opb (banner argv2 seed initial_state)) @ map OpbLine (opb S))"
    by (rule list_all2_appendI [OF _ echo_differs_refl]) (simp add: banner_opb echo_differs_def)
  have h: "echo_differs argv1 argv2 x x" for x
    by (simp add: echo_differs_def)
  show ?thesis
    unfolding flush_def prepend_fields map_append
    by (intro list_all2_appendI) (simp_all add: c p h)
qed

lemma main_accepted:
  assumes "accepted opts" "opt_seed opts = Some seed"
  shows "main M L clock argv opts =
           \<lparr>exit_code = 0,
            stderr = fst (generate (configure opts (chosen_attack opts)) M L argv seed),
            stdout = flush (configure opts (chosen_attack opts))
                       (snd (generate (configure opts (chosen_attack opts)) M L argv seed))\<rparr>"
  by (rule main_generates) (use assms in \<open>simp_all add: accepted_def chosen_attack_def\<close>)

lemma main_refused:
  assumes "\<not> accepted opts"
  shows "main M L clock argv opts = main M L clock' argv' opts"
proof (cases "opt_help opts")
  case True
  then show ?thesis by (simp add: main_def)
next
  case False
  then have "1 < length (opt_attack opts) \<or>
         (length (opt_attack opts) = 1 \<and> hd (opt_attack opts) \<noteq> ''preimage'' \<and>
            hd (opt_attack opts) \<noteq> ''second-preimage'' \<and> hd (opt_attack opts) \<noteq> ''collision'') \<or>
         (\<not> opt_cnf opts \<and> \<not> opt_opb opts) \<or> (opt_xor opts \<and> \<not> opt_cnf opts) \<or>
         (opt_halfadder opts \<and> \<not> opt_cnf opts) \<or> (opt_compact_adders opts \<and> \<not> opt_opb opts)"
    using assms by (auto simp: accepted_def chosen_attack_def split: if_splits)
  then show ?thesis
    using False by (auto simp: main_def Let_def failure_def configure_def split_def)
qed

text \<open>
  Claim C6, as amended. The banner echoes the command line as it was typed, so the output
  is not a function of the seed and the flags alone. With an explicitly configured seed and
  parameters within the documented ranges, two runs with the same options agree in exit
  code and standard error, and their outputs have the same lines in the same order, except
  that the comment line echoing the command line (one in the CNF part, one in the OPB
  part) shows the command line of its own run. The clock plays no part. The C library
  generators and the minimiser are the same functions in both runs.
\<close>

theorem output_determined_up_to_command_line:
  assumes "opt_seed opts = Some seed"
    and "case opt_rounds opts of None \<Rightarrow> True | Some v \<Rightarrow> v \<le> 80"
    and "case opt_message_bits opts of None \<Rightarrow> True | Some v \<Rightarrow> v \<le> 512"
    and "case opt_hash_bits opts of None \<Rightarrow> True | Some v \<Rightarrow> v \<le> 160"
  shows "exit_code (main M L clock1 argv1 opts) = exit_code (main M L clock2 argv2 opts) \<and>
         stderr (main M L clock1 argv1 opts) = stderr (main M L clock2 argv2 opts) \<and>
         list_all2 (echo_differs argv1 argv2)
           (stdout (main M L clock1 argv1 opts)) (stdout (main M L clock2 argv2 opts))"
proof (cases "accepted opts")
  case True
  show ?thesis
    unfolding main_accepted [OF True assms(1)] generate_framed
    by (simp add: flush_framed)
next
  case False
  show ?thesis
    unfolding main_refused [OF False, of M L clock1 argv1 clock2 argv2]
    by (simp add: echo_differs_refl)
qed


theorem output_determined_up_to_command_line_witness:
  "exit_code (main exact_cover counter_libc 1000 [''sha1-sat'', ''--cnf'', ''--seed'', ''1'']
       seeded_options) =
   exit_code (main exact_cover counter_libc 2000 [''sha1-sat'', ''--seed'', ''1'', ''--cnf'']
       seeded_options) \<and>
   stderr (main exact_cover counter_libc 1000 [''sha1-sat'', ''--cnf'', ''--seed'', ''1'']
       seeded_options) =
   stderr (main exact_cover counter_libc 2000 [''sha1-sat'', ''--seed'', ''1'', ''--cnf'']
       seeded_options) \<and>
   list_all2 (echo_differs [''sha1-sat'', ''--cnf'', ''--seed'', ''1'']
                [''sha1-sat'', ''--seed'', ''1'', ''--cnf''])
     (stdout (main exact_cover counter_libc 1000 [''sha1-sat'', ''--cnf'', ''--seed'', ''1'']
        seeded_options))
     (stdout (main exact_cover counter_libc 2000 [''sha1-sat'', ''--seed'', ''1'', ''--cnf'']
        seeded_options))"
proof -
  have "opt_seed seeded_options = Some 1"
    and "case opt_rounds seeded_options of None \<Rightarrow> True | Some v \<Rightarrow> v \<le> 80"
    and "case opt_message_bits seeded_options of None \<Rightarrow> True | Some v \<Rightarrow> v \<le> 512"
    and "case opt_hash_bits seeded_options of None \<Rightarrow> True | Some v \<Rightarrow> v \<le> 160"
    by (simp_all add: seeded_options_def no_options_def)
  then show ?thesis
    by (rule output_determined_up_to_command_line)
qed

text \<open>
  Against claim C6 as stated: the command lines \<open>sha1-sat --cnf --seed 1\<close> and
  \<open>sha1-sat --seed 1 --cnf\<close> give the same flags and the same seed, and the outputs of
  the two runs differ (in their seventh line, the echo of the command line).
\<close>

theorem same_flags_different_output:
  "stdout (main exact_cover counter_libc 0 [''sha1-sat'', ''--cnf'', ''--seed'', ''1'']
     seeded_options) ! 6 =
     CnfLine (CnfComment ''command line: sha1-sat --cnf --seed 1'') \<and>
   stdout (main exact_cover counter_libc 0 [''sha1-sat'', ''--seed'', ''1'', ''--cnf'']
     seeded_options) ! 6 =
     CnfLine (CnfComment ''command line: sha1-sat --seed 1 --cnf'') \<and>
   stdout (main exact_cover counter_libc 0 [''sha1-sat'', ''--cnf'', ''--seed'', ''1'']
     seeded_options) \<noteq>
   stdout (main exact_cover counter_libc 0 [''sha1-sat'', ''--seed'', ''1'', ''--cnf'']
     seeded_options)"
proof -
  have acc: "accepted seeded_options"
    by (simp add: accepted_def chosen_attack_def seeded_options_def no_options_def)
  have seed: "opt_seed seeded_options = Some 1"
    by (simp add: seeded_options_def no_options_def)
  have c: "config_cnf (configure seeded_options (chosen_attack seeded_options))"
    by (simp add: configure_def seeded_options_def no_options_def)
  have o: "stdout (main exact_cover counter_libc 0 argv seeded_options) ! 6 =
      CnfLine (CnfComment (''command line: '' @ join_args argv))" for argv
    unfolding main_accepted [OF acc seed] generate_framed
    by (simp add: flush_def c banner_cnf nth_append)
  have a: "stdout (main exact_cover counter_libc 0 [''sha1-sat'', ''--cnf'', ''--seed'', ''1'']
       seeded_options) ! 6 = CnfLine (CnfComment ''command line: sha1-sat --cnf --seed 1'')"
    unfolding o by (simp add: join_args_def)
  have b: "stdout (main exact_cover counter_libc 0 [''sha1-sat'', ''--seed'', ''1'', ''--cnf'']
       seeded_options) ! 6 = CnfLine (CnfComment ''command line: sha1-sat --seed 1 --cnf'')"
    unfolding o by (simp add: join_args_def)
  have "stdout (main exact_cover counter_libc 0 [''sha1-sat'', ''--cnf'', ''--seed'', ''1'']
       seeded_options) \<noteq>
     stdout (main exact_cover counter_libc 0 [''sha1-sat'', ''--seed'', ''1'', ''--cnf'']
       seeded_options)"
  proof
    assume "stdout (main exact_cover counter_libc 0 [''sha1-sat'', ''--cnf'', ''--seed'', ''1'']
       seeded_options) =
     stdout (main exact_cover counter_libc 0 [''sha1-sat'', ''--seed'', ''1'', ''--cnf'']
       seeded_options)"
    then have "stdout (main exact_cover counter_libc 0 [''sha1-sat'', ''--cnf'', ''--seed'', ''1'']
       seeded_options) ! 6 =
     stdout (main exact_cover counter_libc 0 [''sha1-sat'', ''--seed'', ''1'', ''--cnf'']
       seeded_options) ! 6"
      by (rule arg_cong)
    then show False
      unfolding a b by simp
  qed
  with a b show ?thesis by blast
qed

end
